theory Spec2Isabelle
  imports Main "HOL-Library.Char_ord" "HOL-Library.List_Lexorder" "HOL-Library.Product_Lexorder"
    "HOL-Library.Multiset"
begin

section \<open>Exceptions of the views\<close>

text \<open>
  The exceptions that the modelled code of \<^verbatim>\<open>netbox/dcim/views.py\<close> can raise:
  \<^verbatim>\<open>ValueError\<close> (a failed tuple unpacking, or \<^verbatim>\<open>int\<close> on a non-number),
  \<^verbatim>\<open>AttributeError\<close> (\<^verbatim>\<open>.group\<close> on the \<^verbatim>\<open>None\<close> of a failed \<^verbatim>\<open>re.match\<close>),
  \<^verbatim>\<open>IntegrityError\<close> (the store's uniqueness constraint) and \<^verbatim>\<open>Http404\<close>
  (\<^verbatim>\<open>get_object_or_404\<close> on a missing primary key).
\<close>

datatype error = ValueError | AttributeError | IntegrityError | Http404

section \<open>Pattern expansion (\<^verbatim>\<open>expand_pattern\<close>, views.py lines 37-60)\<close>

text \<open>
  The characters of a name are the code points up to 255 (type \<^typ>\<open>char\<close>). Among
  them \<^verbatim>\<open>\d\<close> is the class of the ten ASCII digits.
\<close>

definition is_digit :: "char \<Rightarrow> bool" where
  "is_digit c = (c \<in> set ''0123456789'')"

text \<open>
  \<^verbatim>\<open>EXPANSION_PATTERN = '\[(\d+-\d+)\]'\<close> tried at the first character of \<open>s\<close>. The
  digit classes are disjoint from \<^verbatim>\<open>-\<close> and \<^verbatim>\<open>]\<close>, so the greedy \<^verbatim>\<open>\d+\<close> can only
  take the maximal digit run and backtracking never finds another match. The result is
  the captured group and the text after the closing bracket.
\<close>

definition match_here :: "string \<Rightarrow> (string \<times> string) option" where
  "match_here s =
     (case s of
        [] \<Rightarrow> None
      | c # t \<Rightarrow>
          if c \<noteq> CHR ''['' then None
          else let x = takeWhile is_digit t; t1 = dropWhile is_digit t in
            if x = [] then None
            else (case t1 of
                [] \<Rightarrow> None
              | d # t2 \<Rightarrow>
                  if d \<noteq> CHR ''-'' then None
                  else let y = takeWhile is_digit t2; t3 = dropWhile is_digit t2 in
                    if y = [] then None
                    else (case t3 of
                        [] \<Rightarrow> None
                      | e # remnant \<Rightarrow>
                          if e \<noteq> CHR '']'' then None
                          else Some (x @ ''-'' @ y, remnant))))"

text \<open>
  \<^verbatim>\<open>re.split(EXPANSION_PATTERN, string, maxsplit=1)\<close>: the leftmost match splits the string
  into the text before it, the captured group and the text after it (\<open>Some\<close> of the three);
  without a match the result is the one-element list of the string itself (\<open>None\<close> here).
\<close>

fun re_split :: "string \<Rightarrow> (string \<times> string \<times> string) option" where
  "re_split [] = None"
| "re_split (c # cs) =
     (case match_here (c # cs) of
        Some (pattern, remnant) \<Rightarrow> Some ([], pattern, remnant)
      | None \<Rightarrow>
          (case re_split cs of
             Some (lead, pattern, remnant) \<Rightarrow> Some (c # lead, pattern, remnant)
           | None \<Rightarrow> None))"

text \<open>\<^verbatim>\<open>pattern.split('-')\<close>: the pieces between every two dashes.\<close>

fun split_dash :: "string \<Rightarrow> string list" where
  "split_dash [] = [[]]"
| "split_dash (c # cs) =
     (if c = CHR ''-'' then [] # split_dash cs
      else (case split_dash cs of p # ps \<Rightarrow> (c # p) # ps | [] \<Rightarrow> [[c]]))"

definition digit_val :: "char \<Rightarrow> nat" where
  "digit_val c = of_char c - 48"

text \<open>
  \<^verbatim>\<open>int(x)\<close> on a string of ASCII digits (leading zeros allowed); any other string is
  answered with \<^verbatim>\<open>ValueError\<close>. The strings that reach it here are digit runs captured by
  the pattern, so the signs and blanks that Python's \<^verbatim>\<open>int\<close> also accepts do not occur.
\<close>

definition py_int :: "string \<Rightarrow> error + nat" where
  "py_int s =
     (if s \<noteq> [] \<and> list_all is_digit s
      then Inr (foldl (\<lambda>a c. 10 * a + digit_val c) 0 s)
      else Inl ValueError)"

text \<open>\<^verbatim>\<open>"{0}".format(i)\<close> for a non-negative integer: decimal, no padding.\<close>

fun str_nat :: "nat \<Rightarrow> string" where
  "str_nat n =
     (if n < 10 then [''0123456789'' ! n]
      else str_nat (n div 10) @ [''0123456789'' ! (n mod 10)])"

text \<open>
  A generator run to its end: the strings it yielded, in order, and the exception that
  ended it, if one did.
\<close>

type_synonym gen = "string list \<times> error option"

text \<open>
  The body of \<^verbatim>\<open>for i in range(int(x), int(y) + 1)\<close> when \<^verbatim>\<open>remnant\<close> is non-empty:
  each round iterates \<^verbatim>\<open>expand_pattern(remnant)\<close> anew, whose run \<open>sub\<close> is the same in
  every round, yields \<^verbatim>\<open>lead + str(i) + string\<close> for each of its strings, and stops at
  its exception.
\<close>

fun for_range :: "string \<Rightarrow> gen \<Rightarrow> nat list \<Rightarrow> gen" where
  "for_range lead sub [] = ([], None)"
| "for_range lead sub (i # is) =
     (case sub of
        (subs, Some e) \<Rightarrow> (map (\<lambda>s. lead @ str_nat i @ s) subs, Some e)
      | (subs, None) \<Rightarrow>
          (case for_range lead sub is of
             (rest, r) \<Rightarrow> (map (\<lambda>s. lead @ str_nat i @ s) subs @ rest, r)))"

lemma match_here_shorter:
  "match_here s = Some (p, r) \<Longrightarrow> length r < length s"
proof -
  assume m: "match_here s = Some (p, r)"
  have drop_le: "\<And>P (xs::string). length (dropWhile P xs) \<le> length xs"
    by (simp add: length_dropWhile_le)
  from m obtain t t2 where
    s: "s = CHR ''['' # t" and
    t1: "dropWhile is_digit t = CHR ''-'' # t2" and
    t3: "dropWhile is_digit t2 = CHR '']'' # r"
    by (auto simp: match_here_def Let_def split: list.splits if_splits)
  have "length r < length t2"
    using drop_le [of is_digit t2] t3 by simp
  moreover have "length t2 < length t"
    using drop_le [of is_digit t] t1 by simp
  ultimately show ?thesis using s by simp
qed

lemma re_split_shorter:
  "re_split s = Some (l, p, r) \<Longrightarrow> length r < length s"
proof (induction s arbitrary: l)
  case Nil
  then show ?case by simp
next
  case (Cons c cs)
  show ?case
  proof (cases "match_here (c # cs)")
    case (Some pr)
    with Cons.prems have "match_here (c # cs) = Some (p, r)"
      by (cases pr) simp
    then show ?thesis by (rule match_here_shorter)
  next
    case None
    with Cons.prems obtain l' where "re_split cs = Some (l', p, r)"
      by (auto split: option.splits)
    then have "length r < length cs" by (rule Cons.IH)
    then show ?thesis by simp
  qed
qed

text \<open>
  \<^verbatim>\<open>expand_pattern(string)\<close>. Unpacking the result of \<^verbatim>\<open>re.split\<close> into three names
  raises \<^verbatim>\<open>ValueError\<close> when there was no match, as does unpacking the pieces of
  \<^verbatim>\<open>pattern.split('-')\<close> into two names when there are not exactly two. The test
  \<^verbatim>\<open>if remnant:\<close> is a test for the empty string.
\<close>

function expand_pattern :: "string \<Rightarrow> gen" where
  "expand_pattern string =
     (case re_split string of
        None \<Rightarrow> ([], Some ValueError)
      | Some (lead, pattern, remnant) \<Rightarrow>
          (case split_dash pattern of
             [x, y] \<Rightarrow>
               (case py_int x of
                  Inl e \<Rightarrow> ([], Some e)
                | Inr lo \<Rightarrow>
                    (case py_int y of
                       Inl e \<Rightarrow> ([], Some e)
                     | Inr hi \<Rightarrow>
                         if remnant \<noteq> []
                         then for_range lead (expand_pattern remnant) [lo..<hi + 1]
                         else (map (\<lambda>i. lead @ str_nat i) [lo..<hi + 1], None)))
           | _ \<Rightarrow> ([], Some ValueError)))"
  by pat_completeness auto
termination
  by (relation "measure length") (auto simp: re_split_shorter)

declare expand_pattern.simps [simp del]
declare str_nat.simps [simp del]

text \<open>\<^verbatim>\<open>list(expand_pattern(string))\<close>: the strings, or the exception that ended the run.\<close>

definition expand_list :: "string \<Rightarrow> error + string list" where
  "expand_list string =
     (case expand_pattern string of (xs, None) \<Rightarrow> Inr xs | (xs, Some e) \<Rightarrow> Inl e)"

text \<open>
  In the words of the specification: a bound of a bracket expression is numeric when it
  is a non-empty run of decimal digits.
\<close>

definition numeric_bound :: "string \<Rightarrow> bool" where
  "numeric_bound x = (x \<noteq> [] \<and> list_all is_digit x)"

text \<open>
  The text between two brackets is a range with numeric bounds when it is a numeric
  bound, a dash, and a numeric bound.
\<close>

definition numeric_range :: "string \<Rightarrow> bool" where
  "numeric_range b =
     (let x = takeWhile (\<lambda>c. c \<noteq> CHR ''-'') b; r = dropWhile (\<lambda>c. c \<noteq> CHR ''-'') b
      in numeric_bound x \<and> r \<noteq> [] \<and> numeric_bound (tl r))"

subsection \<open>Facts about the expander\<close>

lemma for_range_err:
  "for_range lead ([], Some e) is = ([], if is = [] then None else Some e)"
  by (cases "is") simp_all

lemma for_range_ok:
  "for_range lead (subs, None) is =
     (concat (map (\<lambda>i. map (\<lambda>s. lead @ str_nat i @ s) subs) is), None)"
  by (induction "is") simp_all

lemma expand_pattern_no_match:
  "re_split s = None \<Longrightarrow> expand_pattern s = ([], Some ValueError)"
  by (subst expand_pattern.simps) simp

lemma expand_pattern_step:
  "re_split s = Some (lead, pattern, remnant) \<Longrightarrow> split_dash pattern = [x, y] \<Longrightarrow>
   py_int x = Inr lo \<Longrightarrow> py_int y = Inr hi \<Longrightarrow>
   expand_pattern s =
     (if remnant \<noteq> [] then for_range lead (expand_pattern remnant) [lo..<hi + 1]
      else (map (\<lambda>i. lead @ str_nat i) [lo..<hi + 1], None))"
  by (subst expand_pattern.simps) (simp only: option.case prod.case list.case sum.case)

lemma py_int_error: "py_int s = Inl e \<Longrightarrow> e = ValueError"
  by (auto simp: py_int_def split: if_splits)

lemma for_range_raises:
  assumes sub: "\<And>e'. snd sub = Some e' \<Longrightarrow> fst sub = [] \<and> e' = ValueError"
    and r: "snd (for_range lead sub is) = Some e"
  shows "fst (for_range lead sub is) = [] \<and> e = ValueError"
proof (cases sub)
  case (Pair subs q)
  show ?thesis
  proof (cases q)
    case None
    with Pair r show ?thesis by (simp add: for_range_ok)
  next
    case (Some e')
    with Pair sub [of e'] have "subs = []" "e' = ValueError" by simp_all
    with Pair Some r show ?thesis by (simp add: for_range_err split: if_splits)
  qed
qed

text \<open>
  Whenever the generator raises, the exception is \<^verbatim>\<open>ValueError\<close> and nothing was
  yielded before it: an exception can only come from the innermost call, which is reached
  in the first round of every enclosing loop.
\<close>

lemma expand_pattern_raises:
  "snd (expand_pattern s) = Some e \<Longrightarrow> fst (expand_pattern s) = [] \<and> e = ValueError"
proof (induction "length s" arbitrary: s e rule: less_induct)
  case less
  show ?case
  proof (cases "re_split s")
    case None
    with less.prems show ?thesis by (simp add: expand_pattern_no_match)
  next
    case (Some t)
    then obtain lead pattern remnant where t: "re_split s = Some (lead, pattern, remnant)"
      by (cases t) auto
    then have shorter: "length remnant < length s" by (rule re_split_shorter)
    have IH: "\<And>e'. snd (expand_pattern remnant) = Some e' \<Longrightarrow>
        fst (expand_pattern remnant) = [] \<and> e' = ValueError"
      using less.hyps [OF shorter] .
    have unf: "expand_pattern s =
      (case split_dash pattern of
             [x, y] \<Rightarrow>
               (case py_int x of
                  Inl e \<Rightarrow> ([], Some e)
                | Inr lo \<Rightarrow>
                    (case py_int y of
                       Inl e \<Rightarrow> ([], Some e)
                     | Inr hi \<Rightarrow>
                         if remnant \<noteq> []
                         then for_range lead (expand_pattern remnant) [lo..<hi + 1]
                         else (map (\<lambda>i. lead @ str_nat i) [lo..<hi + 1], None)))
           | _ \<Rightarrow> ([], Some ValueError))"
      using t by (subst expand_pattern.simps) (simp only: option.case prod.case)
    show ?thesis
      using less.prems for_range_raises [OF IH] unfolding unf
      by (auto split: list.splits sum.splits if_splits dest: py_int_error)
  qed
qed

text \<open>Where the pattern matches and where it does not.\<close>

lemma match_here_other: "c \<noteq> CHR ''['' \<Longrightarrow> match_here (c # t) = None"
  by (simp add: match_here_def)

lemma digits_then:
  assumes "list_all is_digit x" and "\<not> is_digit c"
  shows "takeWhile is_digit (x @ c # t) = x" and "dropWhile is_digit (x @ c # t) = c # t"
  using assms by (simp_all add: list_all_iff takeWhile_append2 dropWhile_append2)

lemma not_digit_punctuation:
  "\<not> is_digit CHR ''-''" "\<not> is_digit CHR '']''" "\<not> is_digit CHR ''[''"
  by (simp_all add: is_digit_def)

lemma match_here_numeric:
  assumes "numeric_bound x" and "numeric_bound y"
  shows "match_here (''['' @ x @ ''-'' @ y @ '']'' @ r) = Some (x @ ''-'' @ y, r)"
proof -
  have x: "list_all is_digit x" "x \<noteq> []" and y: "list_all is_digit y" "y \<noteq> []"
    using assms by (simp_all add: numeric_bound_def)
  have tx: "takeWhile is_digit (x @ CHR ''-'' # y @ CHR '']'' # r) = x"
    and dx: "dropWhile is_digit (x @ CHR ''-'' # y @ CHR '']'' # r) = CHR ''-'' # y @ CHR '']'' # r"
    using digits_then [OF x(1) not_digit_punctuation(1)] by simp_all
  have ty: "takeWhile is_digit (y @ CHR '']'' # r) = y"
    and dy: "dropWhile is_digit (y @ CHR '']'' # r) = CHR '']'' # r"
    using digits_then [OF y(1) not_digit_punctuation(2)] by simp_all
  show ?thesis using x(2) y(2) by (simp add: match_here_def tx dx ty dy)
qed

lemma takeWhile_until: "c \<notin> set u \<Longrightarrow> takeWhile (\<lambda>a. a \<noteq> c) (u @ c # r) = u"
  by (induction u) auto

lemma dropWhile_until: "c \<notin> set u \<Longrightarrow> dropWhile (\<lambda>a. a \<noteq> c) (u @ c # r) = c # r"
  by (induction u) auto

lemma first_split_unique:
  assumes "c \<notin> set u" and "c \<notin> set v" and e: "u @ c # r = v @ c # s"
  shows "u = v"
proof -
  have "takeWhile (\<lambda>a. a \<noteq> c) (u @ c # r) = u"
    using assms(1) by (rule takeWhile_until)
  moreover have "takeWhile (\<lambda>a. a \<noteq> c) (v @ c # s) = v"
    using assms(2) by (rule takeWhile_until)
  ultimately show ?thesis using e by simp
qed

lemma numeric_bound_chars:
  assumes "numeric_bound x"
  shows "CHR ''-'' \<notin> set x" and "CHR '']'' \<notin> set x"
  using assms not_digit_punctuation by (auto simp: numeric_bound_def list_all_iff)

lemma numeric_range_bounds:
  assumes "numeric_bound x" and "numeric_bound y"
  shows "numeric_range (x @ CHR ''-'' # y)"
proof -
  have "takeWhile (\<lambda>c. c \<noteq> CHR ''-'') (x @ CHR ''-'' # y) = x"
    and "dropWhile (\<lambda>c. c \<noteq> CHR ''-'') (x @ CHR ''-'' # y) = CHR ''-'' # y"
    using numeric_bound_chars(1) [OF assms(1)]
    by (simp_all add: takeWhile_until dropWhile_until)
  then show ?thesis using assms by (simp add: numeric_range_def)
qed

text \<open>
  The pattern matches at a bracket only if the text up to the next closing bracket is a
  range with numeric bounds.
\<close>

lemma match_here_range:
  assumes m: "match_here (CHR ''['' # b @ CHR '']'' # r) = Some (p, rem)"
    and b: "CHR '']'' \<notin> set b"
  shows "numeric_range b"
proof -
  let ?t = "b @ CHR '']'' # r"
  from m obtain t2 where
    x: "takeWhile is_digit ?t \<noteq> []" and
    t1: "dropWhile is_digit ?t = CHR ''-'' # t2" and
    y: "takeWhile is_digit t2 \<noteq> []" and
    t3: "dropWhile is_digit t2 = CHR '']'' # rem"
    by (auto simp: match_here_def Let_def split: list.splits if_splits)
  let ?x = "takeWhile is_digit ?t" and ?y = "takeWhile is_digit t2"
  have nx: "numeric_bound ?x" and ny: "numeric_bound ?y"
    using x y by (auto simp: numeric_bound_def list_all_iff dest: set_takeWhileD)
  have "?t = ?x @ dropWhile is_digit ?t" by simp
  also have "\<dots> = ?x @ CHR ''-'' # (?y @ dropWhile is_digit t2)"
    unfolding t1 by simp
  finally have e: "b @ CHR '']'' # r = (?x @ CHR ''-'' # ?y) @ CHR '']'' # rem"
    unfolding t3 by simp
  have c: "CHR '']'' \<notin> set (?x @ CHR ''-'' # ?y)"
    using numeric_bound_chars(2) [OF nx] numeric_bound_chars(2) [OF ny] by simp
  from b c e have "b = ?x @ CHR ''-'' # ?y" by (rule first_split_unique)
  then show ?thesis using numeric_range_bounds [OF nx ny] by simp
qed

lemma match_here_not_range:
  assumes "CHR '']'' \<notin> set b" and "\<not> numeric_range b"
  shows "match_here (''['' @ b @ '']'' @ r) = None"
proof (cases "match_here (''['' @ b @ '']'' @ r)")
  case None
  then show ?thesis .
next
  case (Some q)
  then obtain p rem where "match_here (CHR ''['' # b @ CHR '']'' # r) = Some (p, rem)"
    by (cases q) auto
  then have "numeric_range b" using assms(1) by (rule match_here_range)
  with assms(2) show ?thesis by simp
qed

text \<open>Text without an opening bracket is skipped by \<^verbatim>\<open>re.split\<close>.\<close>

lemma re_split_skip:
  "CHR ''['' \<notin> set pre \<Longrightarrow>
   re_split (pre @ s) = map_option (\<lambda>(l, p, r). (pre @ l, p, r)) (re_split s)"
proof (induction pre)
  case Nil
  show ?case by (cases "re_split s") auto
next
  case (Cons c pre)
  then have c: "c \<noteq> CHR ''[''" and IH: "re_split (pre @ s) =
      map_option (\<lambda>(l, p, r). (pre @ l, p, r)) (re_split s)" by auto
  show ?case
    using match_here_other [OF c, of "pre @ s"] IH
    by (cases "re_split s") auto
qed

lemma re_split_skip_bracket:
  assumes pre: "CHR ''['' \<notin> set pre"
    and p: "CHR ''['' \<notin> set b" "CHR '']'' \<notin> set b" and n: "\<not> numeric_range b"
  shows "re_split (pre @ ''['' @ b @ '']'' @ post) =
         map_option (\<lambda>(l, p, r). (pre @ ''['' @ b @ '']'' @ l, p, r)) (re_split post)"
proof -
  have nb: "CHR ''['' \<notin> set (b @ '']'')" using p by simp
  have "re_split (''['' @ b @ '']'' @ post) =
        map_option (\<lambda>(l, p, r). (''['' @ l, p, r)) (re_split ((b @ '']'') @ post))"
    using match_here_not_range [OF p(2) n, of post]
    by (cases "re_split ((b @ '']'') @ post)") auto
  also have "\<dots> = map_option (\<lambda>(l, p, r). (''['' @ b @ '']'' @ l, p, r)) (re_split post)"
    unfolding re_split_skip [OF nb, of post] by (cases "re_split post") auto
  finally have "re_split (''['' @ b @ '']'' @ post) =
      map_option (\<lambda>(l, p, r). (''['' @ b @ '']'' @ l, p, r)) (re_split post)" .
  then show ?thesis
    unfolding re_split_skip [OF pre, of "''['' @ b @ '']'' @ post"]
    by (cases "re_split post") auto
qed

text \<open>A longer lead is a longer start of every string of the run.\<close>

lemma for_range_prefix:
  "for_range (P @ l) sub is =
     (map ((@) P) (fst (for_range l sub is)), snd (for_range l sub is))"
proof (cases sub)
  case (Pair subs q)
  show ?thesis
  proof (cases q)
    case None
    with Pair show ?thesis by (simp add: for_range_ok map_concat comp_def)
  next
    case (Some e)
    with Pair show ?thesis by (cases "is") simp_all
  qed
qed

lemma expand_pattern_prefix:
  assumes "re_split t = map_option (\<lambda>(l, p, r). (P @ l, p, r)) (re_split s)"
  shows "expand_pattern t = (map ((@) P) (fst (expand_pattern s)), snd (expand_pattern s))"
proof (cases "re_split s")
  case None
  with assms have "re_split t = None" by simp
  with None show ?thesis by (simp add: expand_pattern_no_match)
next
  case (Some u)
  then obtain l p r where s: "re_split s = Some (l, p, r)" by (cases u) auto
  with assms have t: "re_split t = Some (P @ l, p, r)" by simp
  have us: "expand_pattern s =
      (case split_dash p of
             [x, y] \<Rightarrow>
               (case py_int x of
                  Inl e \<Rightarrow> ([], Some e)
                | Inr lo \<Rightarrow>
                    (case py_int y of
                       Inl e \<Rightarrow> ([], Some e)
                     | Inr hi \<Rightarrow>
                         if r \<noteq> []
                         then for_range l (expand_pattern r) [lo..<hi + 1]
                         else (map (\<lambda>i. l @ str_nat i) [lo..<hi + 1], None)))
           | _ \<Rightarrow> ([], Some ValueError))"
    using s by (subst expand_pattern.simps) (simp only: option.case prod.case)
  have ut: "expand_pattern t =
      (case split_dash p of
             [x, y] \<Rightarrow>
               (case py_int x of
                  Inl e \<Rightarrow> ([], Some e)
                | Inr lo \<Rightarrow>
                    (case py_int y of
                       Inl e \<Rightarrow> ([], Some e)
                     | Inr hi \<Rightarrow>
                         if r \<noteq> []
                         then for_range (P @ l) (expand_pattern r) [lo..<hi + 1]
                         else (map (\<lambda>i. (P @ l) @ str_nat i) [lo..<hi + 1], None)))
           | _ \<Rightarrow> ([], Some ValueError))"
    using t by (subst expand_pattern.simps) (simp only: option.case prod.case)
  show ?thesis
    unfolding us ut
    by (simp add: for_range_prefix split: list.splits sum.splits)
qed

text \<open>\<^verbatim>\<open>pattern.split('-')\<close> on a captured group.\<close>

lemma split_dash_none: "CHR ''-'' \<notin> set v \<Longrightarrow> split_dash v = [v]"
  by (induction v) auto

lemma split_dash_bounds:
  "CHR ''-'' \<notin> set u \<Longrightarrow> CHR ''-'' \<notin> set v \<Longrightarrow> split_dash (u @ ''-'' @ v) = [u, v]"
  by (induction u) (auto simp: split_dash_none)

lemma py_int_numeric: "py_int x = Inr n \<Longrightarrow> numeric_bound x"
  by (simp add: py_int_def numeric_bound_def split: if_splits)

text \<open>A template that ends with its only bracket expression.\<close>

lemma expand_pattern_last_bracket:
  assumes mid: "CHR ''['' \<notin> set mid" and u: "py_int u = Inr lo" and v: "py_int v = Inr hi"
  shows "expand_pattern (mid @ ''['' @ u @ ''-'' @ v @ '']'') =
         (map (\<lambda>i. mid @ str_nat i) [lo..<hi + 1], None)"
proof -
  have nu: "numeric_bound u" and nv: "numeric_bound v"
    using u v by (simp_all add: py_int_numeric)
  have "match_here (''['' @ u @ ''-'' @ v @ '']'' @ []) = Some (u @ ''-'' @ v, [])"
    using nu nv by (rule match_here_numeric)
  then have "re_split (''['' @ u @ ''-'' @ v @ '']'') = Some ([], u @ ''-'' @ v, [])"
    by simp
  then have r: "re_split (mid @ ''['' @ u @ ''-'' @ v @ '']'') = Some (mid, u @ ''-'' @ v, [])"
    unfolding re_split_skip [OF mid, of "''['' @ u @ ''-'' @ v @ '']''"] by simp
  have sd: "split_dash (u @ ''-'' @ v) = [u, v]"
    using nu nv by (simp add: split_dash_bounds numeric_bound_chars del: append.simps)
  show ?thesis
    using expand_pattern_step [OF r sd u v] by simp
qed

text \<open>The two examples of the docstring and of the specification.\<close>

lemma expand_pattern_docstring_example:
  "expand_pattern ''ge-0/0/[0-3]'' = ([''ge-0/0/0'', ''ge-0/0/1'', ''ge-0/0/2'', ''ge-0/0/3''], None)"
  by code_simp

lemma expand_pattern_nested_example:
  "expand_pattern ''xe-0/[0-1]/[0-2]'' =
     ([''xe-0/0/0'', ''xe-0/0/1'', ''xe-0/0/2'', ''xe-0/1/0'', ''xe-0/1/1'', ''xe-0/1/2''], None)"
  by code_simp

subsection \<open>Claims about the expander\<close>

text \<open>
  C1. The claim: every template with bracketed ranges, each with \<open>lo \<le> hi\<close>, expands to
  the product of the ranges in outer-major order. The code does so only when nothing
  follows the last bracket expression. The test \<^verbatim>\<open>if remnant:\<close> asks whether text
  remains, not whether a bracket expression remains, so on \<^verbatim>\<open>ge-[0-1]/0\<close> the
  recursive call on \<^verbatim>\<open>/0\<close> fails to unpack the one-element result of \<^verbatim>\<open>re.split\<close>:
  the run ends in \<^verbatim>\<open>ValueError\<close> with no string yielded, where the claim promises
  \<^verbatim>\<open>ge-0/0\<close> and \<^verbatim>\<open>ge-1/0\<close>.
\<close>

theorem C1_expand_pattern_trailing_text_raises:
  "expand_pattern ''ge-[0-1]/0'' = ([], Some ValueError)"
  by code_simp

text \<open>
  C5, as stated: a template without a bracket expression expands to the one-element
  sequence of itself. On the code the unpacking of \<^verbatim>\<open>re.split\<close>'s result fails.
\<close>

theorem C5_counterexample:
  "expand_pattern ''eth0'' \<noteq> ([''eth0''], None) \<and> expand_list ''eth0'' = Inl ValueError"
  by code_simp

text \<open>
  C5, amended: for every template in which the expansion pattern does not occur,
  \<^verbatim>\<open>expand_pattern\<close> yields nothing and raises \<^verbatim>\<open>ValueError\<close>.
\<close>

theorem C5_expand_pattern_without_bracket:
  "re_split s = None \<Longrightarrow> expand_pattern s = ([], Some ValueError) \<and> expand_list s = Inl ValueError"
  by (simp add: expand_pattern_no_match expand_list_def)

theorem C5_expand_pattern_without_bracket_witness:
  "re_split ''eth0'' = None \<and> expand_pattern ''eth0'' = ([], Some ValueError)
   \<and> expand_list ''eth0'' = Inl ValueError"
proof -
  have h: "re_split ''eth0'' = None" by code_simp
  show ?thesis using h C5_expand_pattern_without_bracket [OF h] by simp
qed

text \<open>
  C7, as stated: a template with a malformed bracket expression (non-numeric bounds, or
  low above high) is rejected with a format error. On the code a range with low above
  high is an empty \<^verbatim>\<open>range\<close>: the run ends normally with no string. A bracket with
  non-numeric bounds is not a match of the pattern and stays literal text of the lead.
\<close>

theorem C7_counterexample:
  "expand_pattern ''eth[3-1]'' = ([], None) \<and>
   expand_pattern ''x[a-b][0-1]'' = ([''x[a-b]0'', ''x[a-b]1''], None)"
  by code_simp

text \<open>
  C7, amended: the expander has no format check. A template whose first bracket
  expression has low above high is accepted and expands to the empty sequence (first
  conjunct). A bracket whose content \<open>b\<close> is anything but a range with numeric bounds
  (\<open>b\<close> any text without brackets: bounds that are not numbers, a missing bound or dash,
  a sign) is no bracket expression for the expander but text like any other: the
  template expands as the part after that bracket does, with the text up to and
  including the bracket at the start of every name (second conjunct, \<open>pre\<close> any text
  without opening bracket). So when text and one bracket expression \<^verbatim>\<open>[u-v]\<close> with
  numeric bounds follow, the expansion ends normally with one name for every number from
  \<open>u\<close> to \<open>v\<close>, each with the malformed bracket in it (third conjunct).
\<close>

theorem C7_expand_pattern_malformed:
  "(re_split s = Some (lead, pattern, remnant) \<and> split_dash pattern = [x, y] \<and>
    py_int x = Inr lo \<and> py_int y = Inr hi \<and> hi < lo \<longrightarrow> expand_pattern s = ([], None))
   \<and>
   (CHR ''['' \<notin> set pre \<and> CHR ''['' \<notin> set b \<and> CHR '']'' \<notin> set b \<and>
    \<not> numeric_range b \<longrightarrow>
      expand_pattern (pre @ ''['' @ b @ '']'' @ post) =
        (map (\<lambda>name. pre @ ''['' @ b @ '']'' @ name) (fst (expand_pattern post)),
         snd (expand_pattern post)))
   \<and>
   (CHR ''['' \<notin> set pre \<and> CHR ''['' \<notin> set b \<and> CHR '']'' \<notin> set b \<and>
    \<not> numeric_range b \<and>
    CHR ''['' \<notin> set mid \<and> py_int u = Inr m \<and> py_int v = Inr n \<longrightarrow>
      expand_pattern (pre @ ''['' @ b @ '']'' @ mid @ ''['' @ u @ ''-'' @ v @ '']'') =
        (map (\<lambda>i. pre @ ''['' @ b @ '']'' @ mid @ str_nat i) [m..<n + 1], None))"
proof (intro conjI impI)
  assume h: "re_split s = Some (lead, pattern, remnant) \<and> split_dash pattern = [x, y] \<and>
    py_int x = Inr lo \<and> py_int y = Inr hi \<and> hi < lo"
  then have "expand_pattern s =
     (if remnant \<noteq> [] then for_range lead (expand_pattern remnant) [lo..<hi + 1]
      else (map (\<lambda>i. lead @ str_nat i) [lo..<hi + 1], None))"
    using expand_pattern_step [of s lead pattern remnant x y lo hi] by simp
  moreover from h have "[lo..<hi + 1] = []" by simp
  ultimately show "expand_pattern s = ([], None)" by simp
next
  assume h: "CHR ''['' \<notin> set pre \<and> CHR ''['' \<notin> set b \<and> CHR '']'' \<notin> set b \<and>
    \<not> numeric_range b"
  then have r: "re_split (pre @ ''['' @ b @ '']'' @ post) =
      map_option (\<lambda>(l, p, r). (pre @ ''['' @ b @ '']'' @ l, p, r)) (re_split post)"
    using re_split_skip_bracket [of pre b post] by simp
  have "re_split (pre @ ''['' @ b @ '']'' @ post) =
      map_option (\<lambda>(l, p, r). ((pre @ ''['' @ b @ '']'') @ l, p, r)) (re_split post)"
    unfolding r by simp
  from expand_pattern_prefix [OF this]
  show "expand_pattern (pre @ ''['' @ b @ '']'' @ post) =
      (map (\<lambda>name. pre @ ''['' @ b @ '']'' @ name) (fst (expand_pattern post)),
       snd (expand_pattern post))"
    by simp
next
  assume h: "CHR ''['' \<notin> set pre \<and> CHR ''['' \<notin> set b \<and> CHR '']'' \<notin> set b \<and>
    \<not> numeric_range b \<and>
    CHR ''['' \<notin> set mid \<and> py_int u = Inr m \<and> py_int v = Inr n"
  then have r: "re_split (pre @ ''['' @ b @ '']'' @ (mid @ ''['' @ u @ ''-'' @ v @ '']'')) =
      map_option (\<lambda>(l, p, r). (pre @ ''['' @ b @ '']'' @ l, p, r))
        (re_split (mid @ ''['' @ u @ ''-'' @ v @ '']''))"
    using re_split_skip_bracket [of pre b "mid @ ''['' @ u @ ''-'' @ v @ '']''"] by simp
  have "re_split (pre @ ''['' @ b @ '']'' @ (mid @ ''['' @ u @ ''-'' @ v @ '']'')) =
      map_option (\<lambda>(l, p, r). ((pre @ ''['' @ b @ '']'') @ l, p, r))
        (re_split (mid @ ''['' @ u @ ''-'' @ v @ '']''))"
    unfolding r by simp
  from expand_pattern_prefix [OF this]
  have pf: "expand_pattern (pre @ ''['' @ b @ '']'' @ mid @ ''['' @ u @ ''-'' @ v @ '']'') =
      (map ((@) (pre @ ''['' @ b @ '']''))
         (fst (expand_pattern (mid @ ''['' @ u @ ''-'' @ v @ '']''))),
       snd (expand_pattern (mid @ ''['' @ u @ ''-'' @ v @ '']'')))" .
  have e: "expand_pattern (mid @ ''['' @ u @ ''-'' @ v @ '']'') =
      (map (\<lambda>i. mid @ str_nat i) [m..<n + 1], None)"
    using expand_pattern_last_bracket [of mid u m v n] h by blast
  show "expand_pattern (pre @ ''['' @ b @ '']'' @ mid @ ''['' @ u @ ''-'' @ v @ '']'') =
      (map (\<lambda>i. pre @ ''['' @ b @ '']'' @ mid @ str_nat i) [m..<n + 1], None)"
    unfolding pf e by (simp add: comp_def del: upt_Suc)
qed

theorem C7_expand_pattern_malformed_witness:
  "re_split ''eth[3-1]'' = Some (''eth'', ''3-1'', []) \<and> split_dash ''3-1'' = [''3'', ''1''] \<and>
   py_int ''3'' = Inr 3 \<and> py_int ''1'' = Inr 1 \<and> (1::nat) < 3 \<and>
   expand_pattern ''eth[3-1]'' = ([], None) \<and>
   CHR ''['' \<notin> set ''x'' \<and> CHR ''['' \<notin> set ''a-b'' \<and> CHR '']'' \<notin> set ''a-b'' \<and>
   \<not> numeric_range ''a-b'' \<and>
   expand_pattern ''x[a-b][0-1][7-8]'' =
     (map (\<lambda>name. ''x[a-b]'' @ name) (fst (expand_pattern ''[0-1][7-8]'')),
      snd (expand_pattern ''[0-1][7-8]'')) \<and>
   CHR ''['' \<notin> set ''/'' \<and> py_int ''0'' = Inr 0 \<and>
   expand_pattern ''x[a-b]/[0-1]'' = ([''x[a-b]/0'', ''x[a-b]/1''], None) \<and>
   \<not> numeric_range ''-1-5'' \<and>
   expand_pattern ''x[-1-5]/[0-1]'' = ([''x[-1-5]/0'', ''x[-1-5]/1''], None)"
proof -
  have w1: "re_split ''eth[3-1]'' = Some (''eth'', ''3-1'', [])" by code_simp
  have w2: "split_dash ''3-1'' = [''3'', ''1'']" by code_simp
  have w3: "py_int ''3'' = Inr 3" by code_simp
  have w4: "py_int ''1'' = Inr 1" by code_simp
  have w5: "CHR ''['' \<notin> set ''x''" by simp
  have w6: "CHR ''['' \<notin> set ''a-b''" "CHR '']'' \<notin> set ''a-b''"
    "CHR ''['' \<notin> set ''-1-5''" "CHR '']'' \<notin> set ''-1-5''" by simp_all
  have w7: "\<not> numeric_range ''a-b''" "\<not> numeric_range ''-1-5''" by code_simp+
  have w8: "CHR ''['' \<notin> set ''/''" by simp
  have w9: "py_int ''0'' = Inr 0" by code_simp
  have names: "map (\<lambda>i. ''x[a-b]/'' @ str_nat i) [0..<1 + 1] = [''x[a-b]/0'', ''x[a-b]/1'']"
    "map (\<lambda>i. ''x[-1-5]/'' @ str_nat i) [0..<1 + 1] = [''x[-1-5]/0'', ''x[-1-5]/1'']"
    by code_simp+
  note t = C7_expand_pattern_malformed [where pre = "''x''" and b = "''a-b''"]
  note t' = C7_expand_pattern_malformed [where pre = "''x''" and b = "''-1-5''"]
  have r1: "expand_pattern ''eth[3-1]'' = ([], None)"
    using C7_expand_pattern_malformed
      [where s = "''eth[3-1]''" and lead = "''eth''" and pattern = "''3-1''" and remnant = "[]"
         and x = "''3''" and y = "''1''" and lo = 3 and hi = 1, THEN conjunct1]
      w1 w2 w3 w4
    by simp
  have r2: "expand_pattern ''x[a-b][0-1][7-8]'' =
     (map (\<lambda>name. ''x[a-b]'' @ name) (fst (expand_pattern ''[0-1][7-8]'')),
      snd (expand_pattern ''[0-1][7-8]''))"
    using t [where post = "''[0-1][7-8]''", THEN conjunct2, THEN conjunct1] w5 w6 w7
    by simp
  have r3: "expand_pattern ''x[a-b]/[0-1]'' = ([''x[a-b]/0'', ''x[a-b]/1''], None)"
    using t [where mid = "''/''" and u = "''0''" and v = "''1''" and m = 0 and n = 1,
        THEN conjunct2, THEN conjunct2] w5 w6 w7 w8 w9 w4 names
    by simp
  have r4: "expand_pattern ''x[-1-5]/[0-1]'' = ([''x[-1-5]/0'', ''x[-1-5]/1''], None)"
    using t' [where mid = "''/''" and u = "''0''" and v = "''1''" and m = 0 and n = 1,
        THEN conjunct2, THEN conjunct2] w5 w6 w7 w8 w9 w4 names
    by simp
  show ?thesis using w1 w2 w3 w4 w5 w6 w7 w8 w9 r1 r2 r3 r4 by simp
qed

section \<open>Related devices (\<^verbatim>\<open>device\<close>, views.py lines 399-411)\<close>

text \<open>
  The four regular expressions of the view are translated by hand. All of them are used
  with \<^verbatim>\<open>re.match\<close> (anchored at the start) and end in \<^verbatim>\<open>$\<close>, which holds at the end
  of the string and also just before a line break that ends the string; as no pattern
  can consume that line break, a match covers exactly \<open>dollar_body\<close> of the string.
  \<^verbatim>\<open>.\<close> is any character but the line break, \<^verbatim>\<open>[0-9]\<close> and \<^verbatim>\<open>\d\<close> are the ASCII
  digits, \<^verbatim>\<open>[a-z]\<close> the ASCII lower-case letters.

  The characters of a name are the code points up to 255 (type \<^typ>\<open>char\<close>, read as
  Latin-1). On these \<^verbatim>\<open>lower()\<close> of a unicode string replaces the capital letters, which
  are \<^verbatim>\<open>A\<close> to \<^verbatim>\<open>Z\<close> (65 to 90) and the accented capitals 192 to 222 but for the
  multiplication sign 215, by the small letter 32 places further on, and leaves every
  other character as it is.
\<close>

definition is_lower :: "char \<Rightarrow> bool" where
  "is_lower c = (c \<in> set ''abcdefghijklmnopqrstuvwxyz'')"

definition is_upper :: "char \<Rightarrow> bool" where
  "is_upper c =
     (let n = of_char c :: nat
      in (65 \<le> n \<and> n \<le> 90) \<or> (192 \<le> n \<and> n \<le> 222 \<and> n \<noteq> 215))"

definition lower_char :: "char \<Rightarrow> char" where
  "lower_char c = (if is_upper c then char_of ((of_char c :: nat) + 32) else c)"

definition lower :: "string \<Rightarrow> string" where
  "lower s = map lower_char s"

text \<open>The line break \<^verbatim>\<open>\n\<close>.\<close>

definition newline :: char where
  "newline = CHR 0x0A"

text \<open>The part of the string that a pattern ending in \<^verbatim>\<open>$\<close> has to cover.\<close>

definition dollar_body :: "string \<Rightarrow> string" where
  "dollar_body s = (if s \<noteq> [] \<and> last s = newline then butlast s else s)"

text \<open>\<^verbatim>\<open>re.match('.+[0-9]+$', s)\<close> succeeds: at least one character, then at least one digit.\<close>

definition match_dot_digits :: "string \<Rightarrow> bool" where
  "match_dot_digits s =
     (let b = dollar_body s
      in newline \<notin> set b \<and> 2 \<le> length b \<and> is_digit (last b))"

text \<open>
  \<^verbatim>\<open>re.match('(.*?)[0-9]+$', s).group(1)\<close>: the lazy group is the shortest prefix
  after which only digits follow, so the whole trailing digit run is stripped.
\<close>

definition group_before_digits :: "string \<Rightarrow> string option" where
  "group_before_digits s =
     (let b = dollar_body s; g = rev (dropWhile is_digit (rev b))
      in if b \<noteq> [] \<and> is_digit (last b) \<and> newline \<notin> set g then Some g else None)"

text \<open>
  \<^verbatim>\<open>re.match('.+\d[a-z]+$', s)\<close> succeeds: at least one character, one digit, and
  then one or more letters up to the end.
\<close>

definition match_dot_digit_letters :: "string \<Rightarrow> bool" where
  "match_dot_digit_letters s =
     (let b = dollar_body s;
          letters = takeWhile is_lower (rev b);
          before = dropWhile is_lower (rev b)
      in newline \<notin> set b \<and> letters \<noteq> [] \<and>
         (case before of [] \<Rightarrow> False | d # a \<Rightarrow> is_digit d \<and> a \<noteq> []))"

text \<open>
  \<^verbatim>\<open>re.match('(.*\d+)[a-z]$', s).group(1)\<close>: the string must end in a digit followed by
  exactly one letter; the group is everything before that letter.
\<close>

definition group_before_letter :: "string \<Rightarrow> string option" where
  "group_before_letter s =
     (let b = dollar_body s
      in case rev b of
           c # d # a \<Rightarrow>
             if is_lower c \<and> is_digit d \<and> newline \<notin> set a then Some (rev (d # a)) else None
         | _ \<Rightarrow> None)"

text \<open>
  The part of the view that computes \<^verbatim>\<open>base_name\<close>. \<^verbatim>\<open>.group(1)\<close> on the
  \<^verbatim>\<open>None\<close> of a failed \<^verbatim>\<open>re.match\<close> raises \<^verbatim>\<open>AttributeError\<close>.
\<close>

definition base_name :: "string \<Rightarrow> error + string option" where
  "base_name name =
     (if match_dot_digits name then
        (case group_before_digits name of
           None \<Rightarrow> Inl AttributeError
         | Some g \<Rightarrow> Inr (Some g))
      else if match_dot_digit_letters (lower name) then
        (case group_before_letter (lower name) of
           None \<Rightarrow> Inl AttributeError
         | Some g \<Rightarrow> Inr (Some g))
      else Inr None)"


text \<open>
  A device row, as far as the views read it. A missing name (\<^verbatim>\<open>None\<close>) is the empty
  string here: the view treats both alike (\<^verbatim>\<open>if device.name:\<close>).
\<close>

record device =
  dev_pk :: nat
  dev_name :: string

text \<open>
  The filter \<^verbatim>\<open>name__istartswith=base_name\<close> of the object store: the name starts with
  the given text, letter case ignored.
\<close>

definition istartswith :: "string \<Rightarrow> string \<Rightarrow> bool" where
  "istartswith s p = (take (length p) (lower s) = lower p)"

text \<open>
  \<^verbatim>\<open>related_devices\<close> as the view computes it from the device table: nothing for an
  unnamed device or an empty or missing base name, else at most ten other devices whose
  name starts with the base name.
\<close>

definition related_devices :: "device list \<Rightarrow> device \<Rightarrow> error + device list" where
  "related_devices devices dev =
     (if dev_name dev \<noteq> [] then
        (case base_name (dev_name dev) of
           Inl e \<Rightarrow> Inl e
         | Inr b \<Rightarrow>
             (case b of
                None \<Rightarrow> Inr []
              | Some bn \<Rightarrow>
                  if bn \<noteq> [] then
                    Inr (take 10 (filter (\<lambda>d. istartswith (dev_name d) bn \<and> dev_pk d \<noteq> dev_pk dev)
                                    devices))
                  else Inr []))
      else Inr [])"

subsection \<open>The base name in the words of the specification\<close>

text \<open>
  The rule of the specification, word for word: a name that ends in digits loses its
  trailing digit run; otherwise, if the lower-cased name ends in a letter that follows a
  digit, the name loses that letter; otherwise there is no base name.
\<close>

definition spec_base_name :: "string \<Rightarrow> string option" where
  "spec_base_name name =
     (if name \<noteq> [] \<and> is_digit (last name) then Some (rev (dropWhile is_digit (rev name)))
      else if (case rev (lower name) of c # d # a \<Rightarrow> is_lower c \<and> is_digit d | _ \<Rightarrow> False)
      then Some (butlast name)
      else None)"

text \<open>
  The conditions as the code has them. Both tests of the view start with \<^verbatim>\<open>.+\<close>, so a
  character must precede the digits of the first rule and the digit of the second; and
  the second rule works on the lower-cased name throughout.
\<close>

definition ends_in_digit_run :: "string \<Rightarrow> bool" where
  "ends_in_digit_run s = (2 \<le> length s \<and> is_digit (last s))"

definition ends_in_letter_after_digit :: "string \<Rightarrow> bool" where
  "ends_in_letter_after_digit s =
     (case rev s of c # d # a \<Rightarrow> is_lower c \<and> is_digit d \<and> a \<noteq> [] | _ \<Rightarrow> False)"

text \<open>
  The names on which the second test of the view (\<^verbatim>\<open>[a-z]+\<close>, one or more letters) and
  its extraction (\<^verbatim>\<open>[a-z]\<close>, one letter) disagree: a digit, preceded by some character,
  and followed by two or more letters up to the end.
\<close>

definition several_letters_after_digit :: "string \<Rightarrow> bool" where
  "several_letters_after_digit s =
     (let letters = takeWhile is_lower (rev s); before = dropWhile is_lower (rev s)
      in 2 \<le> length letters \<and> (case before of [] \<Rightarrow> False | d # a \<Rightarrow> is_digit d \<and> a \<noteq> []))"

definition amended_base_name :: "string \<Rightarrow> string option" where
  "amended_base_name name =
     (if ends_in_digit_run name then Some (rev (dropWhile is_digit (rev name)))
      else if ends_in_letter_after_digit (lower name) then Some (butlast (lower name))
      else None)"

subsection \<open>Facts about the base name\<close>

lemma lower_not_digit: "is_lower c \<Longrightarrow> \<not> is_digit c"
  by (auto simp: is_lower_def is_digit_def)

lemma lower_char_newline: "lower_char c = newline \<longleftrightarrow> c = newline"
proof (cases "is_upper c")
  case False
  then show ?thesis by (simp add: lower_char_def)
next
  case True
  then have l: "lower_char c = char_of ((of_char c :: nat) + 32)"
    by (simp add: lower_char_def)
  have n: "(of_char newline :: nat) = 10" by (simp add: newline_def)
  from True have r: "65 \<le> (of_char c :: nat)" "(of_char c :: nat) \<le> 222"
    by (auto simp: is_upper_def Let_def)
  then have "(of_char (char_of ((of_char c :: nat) + 32)) :: nat) = of_char c + 32"
    by simp
  then have "(of_char (lower_char c) :: nat) \<noteq> of_char newline"
    unfolding l n using r by simp
  then have a: "lower_char c \<noteq> newline" by metis
  from r have "(of_char c :: nat) \<noteq> of_char newline" unfolding n by simp
  then have b: "c \<noteq> newline" by metis
  show ?thesis using a b by simp
qed

lemma newline_lower: "newline \<in> set (lower s) \<longleftrightarrow> newline \<in> set s"
proof -
  have "\<And>c. (newline = lower_char c) = (newline = c)"
    using lower_char_newline by (metis (no_types))
  then show ?thesis by (induction s) (simp_all add: lower_def)
qed

lemma dollar_body_id:
  assumes "newline \<notin> set s"
  shows "dollar_body s = s"
proof (cases "s = []")
  case True
  then show ?thesis by (simp add: dollar_body_def)
next
  case False
  then have "last s \<in> set s" by simp
  with assms have "last s \<noteq> newline" by metis
  then show ?thesis by (simp add: dollar_body_def)
qed

lemma base_name_digits:
  assumes nl: "newline \<notin> set name" and d: "ends_in_digit_run name"
  shows "base_name name = Inr (Some (rev (dropWhile is_digit (rev name))))"
proof -
  have "set (dropWhile is_digit (rev name)) \<subseteq> set name"
    using set_dropWhileD [of _ is_digit "rev name"] by auto
  with nl have "newline \<notin> set (dropWhile is_digit (rev name))" by blast
  moreover from d have "name \<noteq> []" by (auto simp: ends_in_digit_run_def)
  ultimately show ?thesis
    using nl d
    by (simp add: base_name_def match_dot_digits_def group_before_digits_def
        dollar_body_id ends_in_digit_run_def Let_def)
qed

lemma letters_cases:
  assumes nl: "newline \<notin> set m" and s: "\<not> several_letters_after_digit m"
  shows "if match_dot_digit_letters m
         then ends_in_letter_after_digit m \<and> group_before_letter m = Some (butlast m)
         else \<not> ends_in_letter_after_digit m"
proof (cases "rev m")
  case Nil
  then show ?thesis
    using nl by (simp add: match_dot_digit_letters_def ends_in_letter_after_digit_def
        dollar_body_id Let_def)
next
  case (Cons c r)
  note c = Cons
  show ?thesis
  proof (cases r)
    case Nil
    with c show ?thesis
      using nl by (simp add: match_dot_digit_letters_def ends_in_letter_after_digit_def
          dollar_body_id Let_def)
  next
    case (Cons d a)
    with c have r: "rev m = c # d # a" by simp
    then have "rev (rev m) = rev (c # d # a)" by (rule arg_cong)
    then have m: "m = rev a @ [d, c]" by simp
    have nla: "newline \<notin> set a" using nl m by auto
    have bl: "butlast m = rev a @ [d]" using m by (simp add: butlast_append)
    show ?thesis
    proof (cases "is_lower c")
      case False
      then show ?thesis
        using r nl by (simp add: match_dot_digit_letters_def ends_in_letter_after_digit_def
            dollar_body_id Let_def)
    next
      case lc: True
      show ?thesis
      proof (cases "is_lower d")
        case True
        then have nd: "\<not> is_digit d" by (rule lower_not_digit)
        have "\<not> match_dot_digit_letters m"
          using s r lc True nl
          by (simp add: match_dot_digit_letters_def several_letters_after_digit_def
              dollar_body_id Let_def)
        moreover have "\<not> ends_in_letter_after_digit m"
          using r nd by (simp add: ends_in_letter_after_digit_def)
        ultimately show ?thesis by simp
      next
        case False
        have ma: "match_dot_digit_letters m = (is_digit d \<and> a \<noteq> [])"
          using r lc False nl by (simp add: match_dot_digit_letters_def dollar_body_id Let_def)
        have e: "ends_in_letter_after_digit m = (is_digit d \<and> a \<noteq> [])"
          using r lc by (simp add: ends_in_letter_after_digit_def)
        have g: "is_digit d \<Longrightarrow> group_before_letter m = Some (butlast m)"
          using r lc nl nla bl by (simp add: group_before_letter_def dollar_body_id Let_def)
        show ?thesis using ma e g by simp
      qed
    qed
  qed
qed

text \<open>
  On a name that ends in a digit followed by two or more letters the view does not
  return at all: the test with \<^verbatim>\<open>[a-z]+\<close> succeeds, the extraction with \<^verbatim>\<open>[a-z]\<close>
  finds no match, and \<^verbatim>\<open>.group(1)\<close> raises.
\<close>

lemma base_name_several_letters_raises:
  assumes nl: "newline \<notin> set name"
    and nd: "\<not> ends_in_digit_run name"
    and s: "several_letters_after_digit (lower name)"
  shows "base_name name = Inl AttributeError"
proof -
  let ?m = "lower name"
  have nl': "newline \<notin> set ?m" using nl by (simp add: newline_lower)
  have nm: "\<not> match_dot_digits name"
    using nd nl by (simp add: match_dot_digits_def dollar_body_id ends_in_digit_run_def Let_def)
  from s have len: "2 \<le> length (takeWhile is_lower (rev ?m))"
    by (simp add: several_letters_after_digit_def Let_def)
  then have ne: "takeWhile is_lower (rev ?m) \<noteq> []" by auto
  have ma: "match_dot_digit_letters ?m"
    using s ne nl'
    by (simp add: match_dot_digit_letters_def several_letters_after_digit_def dollar_body_id Let_def)
  have g: "group_before_letter ?m = None"
  proof (cases "rev ?m")
    case Nil
    then show ?thesis using nl' by (simp add: group_before_letter_def dollar_body_id)
  next
    case (Cons c r)
    note c = Cons
    show ?thesis
    proof (cases r)
      case Nil
      with c show ?thesis using nl' by (simp add: group_before_letter_def dollar_body_id)
    next
      case (Cons d a)
      with c have r: "rev ?m = c # d # a" by simp
      with len have "is_lower d" by (simp split: if_splits)
      then have "\<not> is_digit d" by (rule lower_not_digit)
      with r show ?thesis using nl' by (simp add: group_before_letter_def dollar_body_id)
    qed
  qed
  show ?thesis using nm ma g by (simp add: base_name_def)
qed

lemma base_name_several_letters_example:
  "base_name ''dist-switch3ab'' = Inl AttributeError \<and> spec_base_name ''dist-switch3ab'' = None"
  by code_simp

subsection \<open>Claim about the base name\<close>

text \<open>
  C9, as stated: the base name is \<open>spec_base_name\<close> of the device name. On the code,
  \<^verbatim>\<open>3a\<close> has no base name (no character precedes the digit), where the claim gives
  \<^verbatim>\<open>3\<close>; and the base name of \<^verbatim>\<open>Dist-Switch3A\<close> is the lower-cased \<^verbatim>\<open>dist-switch3\<close>, where
  the claim gives \<^verbatim>\<open>Dist-Switch3\<close>. A name of one digit has no base name either.
\<close>

theorem C9_counterexample:
  "base_name ''3a'' = Inr None \<and> spec_base_name ''3a'' = Some ''3'' \<and>
   base_name ''Dist-Switch3A'' = Inr (Some ''dist-switch3'') \<and>
   spec_base_name ''Dist-Switch3A'' = Some ''Dist-Switch3'' \<and>
   base_name ''7'' = Inr None \<and> spec_base_name ''7'' = Some []"
  by code_simp

text \<open>
  C9, amended: for a device name (of characters with codes up to 255) without a line
  break that does not end in a digit followed by two or more letters: if the name has
  at least two characters and ends in a digit, the base name is the name without its
  trailing digit run; otherwise, if the lower-cased name ends in exactly one letter that
  follows a digit which itself follows some character, the base name is the lower-cased
  name without that letter; otherwise there is no base name, and no related devices are
  returned. Lower-casing replaces every capital letter, accented ones included; a letter
  is one of \<^verbatim>\<open>a\<close> to \<^verbatim>\<open>z\<close>, a digit one of \<^verbatim>\<open>0\<close> to \<^verbatim>\<open>9\<close>.
\<close>

theorem C9_base_name:
  assumes nl: "newline \<notin> set (dev_name dev)"
    and ok: "ends_in_digit_run (dev_name dev) \<or> \<not> several_letters_after_digit (lower (dev_name dev))"
  shows "base_name (dev_name dev) = Inr (amended_base_name (dev_name dev)) \<and>
         (amended_base_name (dev_name dev) = None \<longrightarrow> related_devices devices dev = Inr [])"
proof -
  have b: "base_name (dev_name dev) = Inr (amended_base_name (dev_name dev))"
  proof (cases "ends_in_digit_run (dev_name dev)")
    case True
    then show ?thesis using base_name_digits [OF nl True] by (simp add: amended_base_name_def)
  next
    case False
    with ok have s: "\<not> several_letters_after_digit (lower (dev_name dev))" by simp
    have nl': "newline \<notin> set (lower (dev_name dev))" using nl by (simp add: newline_lower)
    have nm: "\<not> match_dot_digits (dev_name dev)"
      using False nl
      by (simp add: match_dot_digits_def dollar_body_id ends_in_digit_run_def Let_def)
    show ?thesis
    proof (cases "match_dot_digit_letters (lower (dev_name dev))")
      case True
      with letters_cases [OF nl' s] nm False show ?thesis
        by (simp add: base_name_def amended_base_name_def)
    next
      case nomatch: False
      with letters_cases [OF nl' s] nm False show ?thesis
        by (simp add: base_name_def amended_base_name_def)
    qed
  qed
  then show ?thesis by (simp add: related_devices_def)
qed

theorem C9_base_name_witness:
  "newline \<notin> set [CHR 0xC9, CHR ''3'', CHR ''A''] \<and>
   \<not> several_letters_after_digit (lower [CHR 0xC9, CHR ''3'', CHR ''A'']) \<and>
   base_name [CHR 0xC9, CHR ''3'', CHR ''A''] = Inr (Some [CHR 0xE9, CHR ''3'']) \<and>
   newline \<notin> set ''dist-switch3a'' \<and>
   \<not> several_letters_after_digit (lower ''dist-switch3a'') \<and>
   base_name ''dist-switch3a'' = Inr (Some ''dist-switch3'') \<and>
   ends_in_digit_run ''core-switch1'' \<and>
   base_name ''core-switch1'' = Inr (Some ''core-switch'') \<and>
   amended_base_name ''router'' = None \<and>
   base_name ''router'' = Inr None \<and>
   related_devices [\<lparr>dev_pk = 1, dev_name = ''router''\<rparr>, \<lparr>dev_pk = 2, dev_name = ''router-b''\<rparr>]
     \<lparr>dev_pk = 1, dev_name = ''router''\<rparr> = Inr []"
proof -
  have n0: "newline \<notin> set [CHR 0xC9, CHR ''3'', CHR ''A'']" by code_simp
  have s0: "\<not> several_letters_after_digit (lower [CHR 0xC9, CHR ''3'', CHR ''A''])" by code_simp
  have a0: "amended_base_name [CHR 0xC9, CHR ''3'', CHR ''A''] = Some [CHR 0xE9, CHR ''3'']"
    by code_simp
  have r0: "base_name [CHR 0xC9, CHR ''3'', CHR ''A''] = Inr (Some [CHR 0xE9, CHR ''3''])"
    using C9_base_name [of "\<lparr>dev_pk = 5, dev_name = [CHR 0xC9, CHR ''3'', CHR ''A'']\<rparr>" "[]"]
      n0 s0 a0
    by simp
  have n1: "newline \<notin> set ''dist-switch3a''" by code_simp
  have s1: "\<not> several_letters_after_digit (lower ''dist-switch3a'')" by code_simp
  have a1: "amended_base_name ''dist-switch3a'' = Some ''dist-switch3''" by code_simp
  have n2: "newline \<notin> set ''core-switch1''" by code_simp
  have d2: "ends_in_digit_run ''core-switch1''" by code_simp
  have a2: "amended_base_name ''core-switch1'' = Some ''core-switch''" by code_simp
  have n3: "newline \<notin> set ''router''" by code_simp
  have s3: "\<not> several_letters_after_digit (lower ''router'')" by code_simp
  have a3: "amended_base_name ''router'' = None" by code_simp
  have r1: "base_name ''dist-switch3a'' = Inr (Some ''dist-switch3'')"
    using C9_base_name [of "\<lparr>dev_pk = 3, dev_name = ''dist-switch3a''\<rparr>" "[]"] n1 s1 a1
    by simp
  have r2: "base_name ''core-switch1'' = Inr (Some ''core-switch'')"
    using C9_base_name [of "\<lparr>dev_pk = 4, dev_name = ''core-switch1''\<rparr>" "[]"] n2 d2 a2
    by simp
  have r3: "base_name ''router'' = Inr None \<and>
    related_devices [\<lparr>dev_pk = 1, dev_name = ''router''\<rparr>, \<lparr>dev_pk = 2, dev_name = ''router-b''\<rparr>]
      \<lparr>dev_pk = 1, dev_name = ''router''\<rparr> = Inr []"
    using C9_base_name [of "\<lparr>dev_pk = 1, dev_name = ''router''\<rparr>"
        "[\<lparr>dev_pk = 1, dev_name = ''router''\<rparr>, \<lparr>dev_pk = 2, dev_name = ''router-b''\<rparr>]"] n3 s3 a3
    by simp
  show ?thesis using n0 s0 r0 n1 s1 r1 d2 r2 a3 r3 by simp
qed

section \<open>The object store\<close>

text \<open>
  \<^verbatim>\<open>views.py\<close> reads and writes model instances through Django's object manager; the
  model classes themselves (\<^verbatim>\<open>models.py\<close>) and the form classes (\<^verbatim>\<open>forms.py\<close>) are not
  part of the file. The store is modelled as one table (a list of rows) per model class,
  with the fields that the views read or write. A foreign key is the primary key of the
  row it points to, a nullable field an \<open>option\<close>.
\<close>

text \<open>
  The connection status of a point-to-point connection. \<^verbatim>\<open>CONNECTION_STATUS_CONNECTED\<close>
  is imported from the models.
\<close>

datatype status = Planned | Connected

record consoleserverport =
  csp_pk :: nat
  csp_device :: nat
  csp_name :: string

record consoleport =
  cp_pk :: nat
  cp_device :: nat
  cp_name :: string
  cs_port :: "nat option"
  cp_connection_status :: "status option"

record poweroutlet =
  po_pk :: nat
  po_device :: nat
  po_name :: string

record powerport =
  pp_pk :: nat
  pp_device :: nat
  pp_name :: string
  power_outlet :: "nat option"
  pp_connection_status :: "status option"

record interface =
  if_pk :: nat
  if_device :: nat
  if_name :: string
  form_factor :: nat
  mgmt_only :: bool
  description :: string

record interfaceconnection =
  ic_pk :: nat
  interface_a :: nat
  interface_b :: nat

record store =
  devices :: "device list"
  console_ports :: "consoleport list"
  cs_ports :: "consoleserverport list"
  power_ports :: "powerport list"
  power_outlets :: "poweroutlet list"
  interfaces :: "interface list"
  interface_connections :: "interfaceconnection list"

text \<open>
  A request as a view sees it: a \<^verbatim>\<open>GET\<close>, or a \<^verbatim>\<open>POST\<close> whose form either validates
  (\<open>Some\<close> of its \<^verbatim>\<open>cleaned_data\<close>) or does not (\<open>None\<close>). What a form accepts is decided
  by the form classes; a view only asks \<^verbatim>\<open>form.is_valid()\<close>.
\<close>

datatype 'a request = GET | POST "'a option"

text \<open>
  A message of a bulk creation: a name refused for a device (single-device views), or a
  name refused for one device of a selection.
\<close>

datatype form_error = Duplicate_name string | Duplicate_interface string nat

text \<open>
  What a view answers: a redirect after \<^verbatim>\<open>messages.warning\<close>, a redirect after
  \<^verbatim>\<open>messages.success\<close>, or the rendered form with the errors added to it.
\<close>

datatype response = Redirect_warning | Redirect_success | Render "form_error list"

section \<open>Console connections\<close>

text \<open>
  The row that \<^verbatim>\<open>consoleport.save()\<close> writes: the row with the instance's primary key
  takes the instance's fields; an instance without a row is inserted.
\<close>

definition write_consoleport :: "store \<Rightarrow> consoleport \<Rightarrow> store" where
  "write_consoleport st p =
     st\<lparr>console_ports :=
       (if list_ex (\<lambda>q. cp_pk q = cp_pk p) (console_ports st)
        then map (\<lambda>q. if cp_pk q = cp_pk p then p else q) (console_ports st)
        else console_ports st @ [p])\<rparr>"

text \<open>
  \<^verbatim>\<open>cs_port\<close> is a one-to-one field: the views read its reverse accessor
  \<^verbatim>\<open>connected_console\<close> as a single instance (views.py lines 387, 804 and 811), so the
  store holds at most one console port for a console server port. \<open>cs_port_taken st c pk\<close>:
  the console server port \<open>c\<close> is referenced by a console port other than \<open>pk\<close>.
\<close>

definition cs_port_taken :: "store \<Rightarrow> nat \<Rightarrow> nat \<Rightarrow> bool" where
  "cs_port_taken st c pk =
     list_ex (\<lambda>q. cp_pk q \<noteq> pk \<and> cs_port q = Some c) (console_ports st)"

text \<open>
  \<^verbatim>\<open>consoleport.save()\<close>: the store refuses a second reference to a console server port
  with \<^verbatim>\<open>IntegrityError\<close> and writes nothing; a null reference is always accepted.
\<close>

definition save_consoleport :: "store \<Rightarrow> consoleport \<Rightarrow> error + store" where
  "save_consoleport st p =
     (case cs_port p of
        None \<Rightarrow> Inr (write_consoleport st p)
      | Some c \<Rightarrow>
          if cs_port_taken st c (cp_pk p) then Inl IntegrityError
          else Inr (write_consoleport st p))"

text \<open>
  \<^verbatim>\<open>consoleserverport.connected_console\<close>, the reverse accessor of \<^verbatim>\<open>cs_port\<close>: the
  console port that references this console server port, if there is one.
\<close>

definition connected_console :: "store \<Rightarrow> consoleserverport \<Rightarrow> consoleport option" where
  "connected_console st csp = find (\<lambda>p. cs_port p = Some (csp_pk csp)) (console_ports st)"

text \<open>
  \<^verbatim>\<open>consoleport_connect\<close> (views.py lines 617-644). \<^verbatim>\<open>form.save()\<close> of the model form
  bound to the instance writes the form's two model fields, \<^verbatim>\<open>cs_port\<close> and
  \<^verbatim>\<open>connection_status\<close>, to the instance and saves it.
\<close>

definition consoleport_connect ::
  "store \<Rightarrow> nat \<Rightarrow> (consoleserverport \<times> status option) request \<Rightarrow> error + store \<times> response" where
  "consoleport_connect st pk req =
     (case find (\<lambda>p. cp_pk p = pk) (console_ports st) of
        None \<Rightarrow> Inl Http404
      | Some consoleport \<Rightarrow>
          (case req of
             POST (Some (csp, connection_status)) \<Rightarrow>
               (case save_consoleport st
                       (consoleport\<lparr>cs_port := Some (csp_pk csp),
                                    cp_connection_status := connection_status\<rparr>) of
                  Inl e \<Rightarrow> Inl e
                | Inr st' \<Rightarrow> Inr (st', Redirect_success))
           | _ \<Rightarrow> Inr (st, Render [])))"

text \<open>\<^verbatim>\<open>consoleport_disconnect\<close> (views.py lines 647-672).\<close>

definition consoleport_disconnect ::
  "store \<Rightarrow> nat \<Rightarrow> unit request \<Rightarrow> error + store \<times> response" where
  "consoleport_disconnect st pk req =
     (case find (\<lambda>p. cp_pk p = pk) (console_ports st) of
        None \<Rightarrow> Inl Http404
      | Some consoleport \<Rightarrow>
          if cs_port consoleport = None then Inr (st, Redirect_warning)
          else (case req of
             POST (Some _) \<Rightarrow>
               (case save_consoleport st
                       (consoleport\<lparr>cs_port := None, cp_connection_status := None\<rparr>) of
                  Inl e \<Rightarrow> Inl e
                | Inr st' \<Rightarrow> Inr (st', Redirect_success))
           | _ \<Rightarrow> Inr (st, Render [])))"

text \<open>
  \<^verbatim>\<open>consoleserverport_connect\<close> (views.py lines 769-796): the cleaned data hold the chosen
  console port instance and the status.
\<close>

definition consoleserverport_connect ::
  "store \<Rightarrow> nat \<Rightarrow> (consoleport \<times> status option) request \<Rightarrow> error + store \<times> response" where
  "consoleserverport_connect st pk req =
     (case find (\<lambda>p. csp_pk p = pk) (cs_ports st) of
        None \<Rightarrow> Inl Http404
      | Some consoleserverport \<Rightarrow>
          (case req of
             POST (Some (consoleport, connection_status)) \<Rightarrow>
               (case save_consoleport st
                       (consoleport\<lparr>cs_port := Some (csp_pk consoleserverport),
                                    cp_connection_status := connection_status\<rparr>) of
                  Inl e \<Rightarrow> Inl e
                | Inr st' \<Rightarrow> Inr (st', Redirect_success))
           | _ \<Rightarrow> Inr (st, Render [])))"

text \<open>
  \<^verbatim>\<open>consoleserverport_disconnect\<close> (views.py lines 799-825). \<^verbatim>\<open>hasattr\<close> is false when
  the reverse accessor finds no console port.
\<close>

definition consoleserverport_disconnect ::
  "store \<Rightarrow> nat \<Rightarrow> unit request \<Rightarrow> error + store \<times> response" where
  "consoleserverport_disconnect st pk req =
     (case find (\<lambda>p. csp_pk p = pk) (cs_ports st) of
        None \<Rightarrow> Inl Http404
      | Some consoleserverport \<Rightarrow>
          (case connected_console st consoleserverport of
             None \<Rightarrow> Inr (st, Redirect_warning)
           | Some consoleport \<Rightarrow>
               (case req of
                  POST (Some _) \<Rightarrow>
                    (case save_consoleport st
                            (consoleport\<lparr>cs_port := None, cp_connection_status := None\<rparr>) of
                       Inl e \<Rightarrow> Inl e
                     | Inr st' \<Rightarrow> Inr (st', Redirect_success))
                | _ \<Rightarrow> Inr (st, Render []))))"

section \<open>Power connections\<close>

text \<open>
  The row that \<^verbatim>\<open>powerport.save()\<close> writes: the row with the instance's primary key
  takes the instance's fields; an instance without a row is inserted.
\<close>

definition write_powerport :: "store \<Rightarrow> powerport \<Rightarrow> store" where
  "write_powerport st p =
     st\<lparr>power_ports :=
       (if list_ex (\<lambda>q. pp_pk q = pp_pk p) (power_ports st)
        then map (\<lambda>q. if pp_pk q = pp_pk p then p else q) (power_ports st)
        else power_ports st @ [p])\<rparr>"

text \<open>
  \<^verbatim>\<open>power_outlet\<close> is a one-to-one field: the views read its reverse accessor
  \<^verbatim>\<open>connected_port\<close> as a single instance (views.py lines 389, 1100 and 1107), so the
  store holds at most one power port for a power outlet. \<open>power_outlet_taken st c pk\<close>:
  the power outlet \<open>c\<close> is referenced by a power port other than \<open>pk\<close>.
\<close>

definition power_outlet_taken :: "store \<Rightarrow> nat \<Rightarrow> nat \<Rightarrow> bool" where
  "power_outlet_taken st c pk =
     list_ex (\<lambda>q. pp_pk q \<noteq> pk \<and> power_outlet q = Some c) (power_ports st)"

text \<open>
  \<^verbatim>\<open>powerport.save()\<close>: the store refuses a second reference to a power outlet
  with \<^verbatim>\<open>IntegrityError\<close> and writes nothing; a null reference is always accepted.
\<close>

definition save_powerport :: "store \<Rightarrow> powerport \<Rightarrow> error + store" where
  "save_powerport st p =
     (case power_outlet p of
        None \<Rightarrow> Inr (write_powerport st p)
      | Some c \<Rightarrow>
          if power_outlet_taken st c (pp_pk p) then Inl IntegrityError
          else Inr (write_powerport st p))"

text \<open>
  \<^verbatim>\<open>poweroutlet.connected_port\<close>, the reverse accessor of \<^verbatim>\<open>power_outlet\<close>: the
  power port that references this power outlet, if there is one.
\<close>

definition connected_port :: "store \<Rightarrow> poweroutlet \<Rightarrow> powerport option" where
  "connected_port st po = find (\<lambda>p. power_outlet p = Some (po_pk po)) (power_ports st)"

text \<open>
  \<^verbatim>\<open>powerport_connect\<close> (views.py lines 914-941). \<^verbatim>\<open>form.save()\<close> of the model form
  bound to the instance writes the form's two model fields, \<^verbatim>\<open>power_outlet\<close> and
  \<^verbatim>\<open>connection_status\<close>, to the instance and saves it.
\<close>

definition powerport_connect ::
  "store \<Rightarrow> nat \<Rightarrow> (poweroutlet \<times> status option) request \<Rightarrow> error + store \<times> response" where
  "powerport_connect st pk req =
     (case find (\<lambda>p. pp_pk p = pk) (power_ports st) of
        None \<Rightarrow> Inl Http404
      | Some powerport \<Rightarrow>
          (case req of
             POST (Some (po, connection_status)) \<Rightarrow>
               (case save_powerport st
                       (powerport\<lparr>power_outlet := Some (po_pk po),
                                    pp_connection_status := connection_status\<rparr>) of
                  Inl e \<Rightarrow> Inl e
                | Inr st' \<Rightarrow> Inr (st', Redirect_success))
           | _ \<Rightarrow> Inr (st, Render [])))"

text \<open>\<^verbatim>\<open>powerport_disconnect\<close> (views.py lines 944-969).\<close>

definition powerport_disconnect ::
  "store \<Rightarrow> nat \<Rightarrow> unit request \<Rightarrow> error + store \<times> response" where
  "powerport_disconnect st pk req =
     (case find (\<lambda>p. pp_pk p = pk) (power_ports st) of
        None \<Rightarrow> Inl Http404
      | Some powerport \<Rightarrow>
          if power_outlet powerport = None then Inr (st, Redirect_warning)
          else (case req of
             POST (Some _) \<Rightarrow>
               (case save_powerport st
                       (powerport\<lparr>power_outlet := None, pp_connection_status := None\<rparr>) of
                  Inl e \<Rightarrow> Inl e
                | Inr st' \<Rightarrow> Inr (st', Redirect_success))
           | _ \<Rightarrow> Inr (st, Render [])))"

text \<open>
  \<^verbatim>\<open>poweroutlet_connect\<close> (views.py lines 1065-1092): the cleaned data hold the chosen
  power port instance and the status.
\<close>

definition poweroutlet_connect ::
  "store \<Rightarrow> nat \<Rightarrow> (powerport \<times> status option) request \<Rightarrow> error + store \<times> response" where
  "poweroutlet_connect st pk req =
     (case find (\<lambda>p. po_pk p = pk) (power_outlets st) of
        None \<Rightarrow> Inl Http404
      | Some poweroutlet \<Rightarrow>
          (case req of
             POST (Some (powerport, connection_status)) \<Rightarrow>
               (case save_powerport st
                       (powerport\<lparr>power_outlet := Some (po_pk poweroutlet),
                                    pp_connection_status := connection_status\<rparr>) of
                  Inl e \<Rightarrow> Inl e
                | Inr st' \<Rightarrow> Inr (st', Redirect_success))
           | _ \<Rightarrow> Inr (st, Render [])))"

text \<open>
  \<^verbatim>\<open>poweroutlet_disconnect\<close> (views.py lines 1095-1121). \<^verbatim>\<open>hasattr\<close> is false when
  the reverse accessor finds no power port.
\<close>

definition poweroutlet_disconnect ::
  "store \<Rightarrow> nat \<Rightarrow> unit request \<Rightarrow> error + store \<times> response" where
  "poweroutlet_disconnect st pk req =
     (case find (\<lambda>p. po_pk p = pk) (power_outlets st) of
        None \<Rightarrow> Inl Http404
      | Some poweroutlet \<Rightarrow>
          (case connected_port st poweroutlet of
             None \<Rightarrow> Inr (st, Redirect_warning)
           | Some powerport \<Rightarrow>
               (case req of
                  POST (Some _) \<Rightarrow>
                    (case save_powerport st
                            (powerport\<lparr>power_outlet := None, pp_connection_status := None\<rparr>) of
                       Inl e \<Rightarrow> Inl e
                     | Inr st' \<Rightarrow> Inr (st', Redirect_success))
                | _ \<Rightarrow> Inr (st, Render []))))"

section \<open>Changes of a single row\<close>

text \<open>
  The store \<open>st'\<close> differs from \<open>st\<close> in nothing but the row \<open>pk\<close> of the console port
  table, which is now \<open>row\<close>: every other console port and every other table, the
  console server ports among them, is as before.
\<close>

definition only_consoleport_changed :: "store \<Rightarrow> store \<Rightarrow> nat \<Rightarrow> consoleport \<Rightarrow> bool" where
  "only_consoleport_changed st st' pk row =
     (find (\<lambda>q. cp_pk q = pk) (console_ports st') = Some row \<and>
      filter (\<lambda>q. cp_pk q \<noteq> pk) (console_ports st') = filter (\<lambda>q. cp_pk q \<noteq> pk) (console_ports st) \<and>
      cs_ports st' = cs_ports st \<and>
      st'\<lparr>console_ports := console_ports st\<rparr> = st)"

text \<open>
  The store \<open>st'\<close> differs from \<open>st\<close> in nothing but the row \<open>pk\<close> of the power port
  table, which is now \<open>row\<close>: every other power port and every other table, the
  power outlets among them, is as before.
\<close>

definition only_powerport_changed :: "store \<Rightarrow> store \<Rightarrow> nat \<Rightarrow> powerport \<Rightarrow> bool" where
  "only_powerport_changed st st' pk row =
     (find (\<lambda>q. pp_pk q = pk) (power_ports st') = Some row \<and>
      filter (\<lambda>q. pp_pk q \<noteq> pk) (power_ports st') = filter (\<lambda>q. pp_pk q \<noteq> pk) (power_ports st) \<and>
      power_outlets st' = power_outlets st \<and>
      st'\<lparr>power_ports := power_ports st\<rparr> = st)"

subsection \<open>Facts about tables\<close>

lemma find_key: "find (\<lambda>q. f q = k) xs = Some x \<Longrightarrow> f x = k \<and> x \<in> set xs"
  by (induction xs) (auto split: if_splits)

lemma find_list_ex: "find P xs = Some x \<Longrightarrow> list_ex P xs"
  by (induction xs) (auto split: if_splits)

lemma find_map_update:
  "find (\<lambda>q. f q = k) xs = Some x \<Longrightarrow> f y = k \<Longrightarrow>
   find (\<lambda>q. f q = k) (map (\<lambda>q. if f q = k then y else q) xs) = Some y"
  by (induction xs) (auto split: if_splits)

lemma filter_map_update:
  "f y = k \<Longrightarrow>
   filter (\<lambda>q. f q \<noteq> k) (map (\<lambda>q. if f q = k then y else q) xs) = filter (\<lambda>q. f q \<noteq> k) xs"
  by (induction xs) auto

lemma map_update_twice:
  "f x = k \<Longrightarrow>
   map (\<lambda>q. if f q = k then y else q) (map (\<lambda>q. if f q = k then x else q) xs) =
   map (\<lambda>q. if f q = k then y else q) xs"
  by (induction xs) auto

lemma map_update_same:
  assumes d: "distinct (map f xs)" and x: "find (\<lambda>q. f q = k) xs = Some x"
  shows "map (\<lambda>q. if f q = k then x else q) xs = xs"
proof -
  from x have fx: "f x = k" and xin: "x \<in> set xs" using find_key [of f k xs x] by simp_all
  from d have inj: "inj_on f (set xs)" by (simp add: distinct_map)
  have "\<And>q. q \<in> set xs \<Longrightarrow> (if f q = k then x else q) = q"
    using inj xin fx by (auto dest: inj_onD)
  then show ?thesis by (simp add: map_idI)
qed

lemma filter_single_find: "filter P xs = [x] \<Longrightarrow> find P xs = Some x"
  by (induction xs) (auto split: if_splits)

lemma filter_single_holds: "filter P xs = [x] \<Longrightarrow> P x"
proof -
  assume "filter P xs = [x]"
  then have "x \<in> set (filter P xs)" by simp
  then show "P x" by simp
qed

subsection \<open>Facts about console connections\<close>

lemma write_consoleport_found:
  assumes "find (\<lambda>q. cp_pk q = pk) (console_ports st) = Some cp" and "cp_pk p = pk"
  shows "write_consoleport st p =
    st\<lparr>console_ports := map (\<lambda>q. if cp_pk q = pk then p else q) (console_ports st)\<rparr>"
  using assms find_list_ex [of "\<lambda>q. cp_pk q = pk" "console_ports st" cp]
  by (simp add: write_consoleport_def)

lemma write_consoleport_row:
  assumes "find (\<lambda>q. cp_pk q = pk) (console_ports st) = Some cp" and "cp_pk p = pk"
  shows "find (\<lambda>q. cp_pk q = pk) (console_ports (write_consoleport st p)) = Some p"
  using assms by (simp add: write_consoleport_found [OF assms] find_map_update)

lemma write_consoleport_others:
  assumes "find (\<lambda>q. cp_pk q = pk) (console_ports st) = Some cp" and "cp_pk p = pk"
  shows "filter (\<lambda>q. cp_pk q \<noteq> pk) (console_ports (write_consoleport st p)) =
         filter (\<lambda>q. cp_pk q \<noteq> pk) (console_ports st)"
  using assms by (simp add: write_consoleport_found [OF assms] filter_map_update)

lemma write_consoleport_frame:
  "(write_consoleport st p)\<lparr>console_ports := console_ports st\<rparr> = st"
  by (simp add: write_consoleport_def)

lemma write_consoleport_twice:
  assumes f: "find (\<lambda>q. cp_pk q = pk) (console_ports st) = Some cp"
    and p: "cp_pk p = pk" and q: "cp_pk p' = pk"
  shows "write_consoleport (write_consoleport st p) p' = write_consoleport st p'"
proof -
  have f1: "find (\<lambda>q. cp_pk q = pk) (console_ports (write_consoleport st p)) = Some p"
    using write_consoleport_row [OF f p] .
  have "write_consoleport (write_consoleport st p) p' =
      (write_consoleport st p)\<lparr>console_ports :=
         map (\<lambda>q. if cp_pk q = pk then p' else q) (console_ports (write_consoleport st p))\<rparr>"
    using write_consoleport_found [OF f1 q] .
  also have "\<dots> = st\<lparr>console_ports := map (\<lambda>q. if cp_pk q = pk then p' else q) (console_ports st)\<rparr>"
    using p by (simp add: write_consoleport_found [OF f p] map_update_twice)
  also have "\<dots> = write_consoleport st p'"
    using write_consoleport_found [OF f q] by simp
  finally show ?thesis .
qed

lemma write_consoleport_same:
  assumes f: "find (\<lambda>q. cp_pk q = pk) (console_ports st) = Some cp"
    and d: "distinct (map cp_pk (console_ports st))" and p: "cp_pk p = pk"
  shows "write_consoleport st p = st \<longleftrightarrow> p = cp"
proof
  assume "write_consoleport st p = st"
  then have "find (\<lambda>q. cp_pk q = pk) (console_ports st) = Some p"
    using write_consoleport_row [OF f p] by simp
  with f show "p = cp" by simp
next
  assume e: "p = cp"
  have "write_consoleport st cp =
      st\<lparr>console_ports := map (\<lambda>q. if cp_pk q = pk then cp else q) (console_ports st)\<rparr>"
    using write_consoleport_found [OF f] p e by simp
  also have "\<dots> = st" using map_update_same [OF d f] by simp
  finally show "write_consoleport st p = st" using e by simp
qed

lemma save_consoleport_null:
  "cs_port p = None \<Longrightarrow> save_consoleport st p = Inr (write_consoleport st p)"
  by (simp add: save_consoleport_def)

lemma save_consoleport_free:
  "cs_port p = Some c \<Longrightarrow> \<not> cs_port_taken st c (cp_pk p) \<Longrightarrow>
   save_consoleport st p = Inr (write_consoleport st p)"
  by (simp add: save_consoleport_def)

lemma save_consoleport_taken:
  "cs_port p = Some c \<Longrightarrow> cs_port_taken st c (cp_pk p) \<Longrightarrow>
   save_consoleport st p = Inl IntegrityError"
  by (simp add: save_consoleport_def)

lemma consoleport_disconnect_warns:
  assumes "find (\<lambda>q. cp_pk q = pk) (console_ports st) = Some cp"
  shows "consoleport_disconnect st pk req = Inr (st, Redirect_warning) \<longleftrightarrow> cs_port cp = None"
  using assms
  by (auto simp: consoleport_disconnect_def save_consoleport_null
      split: request.splits option.splits)

lemma consoleport_disconnect_clears:
  assumes "find (\<lambda>q. cp_pk q = pk) (console_ports st) = Some cp" and "cs_port cp \<noteq> None"
  shows "consoleport_disconnect st pk (POST (Some ())) =
         Inr (write_consoleport st (cp\<lparr>cs_port := None, cp_connection_status := None\<rparr>),
              Redirect_success)"
  using assms by (simp add: consoleport_disconnect_def save_consoleport_null)

lemma consoleport_connect_sets:
  assumes f: "find (\<lambda>q. cp_pk q = pk) (console_ports st) = Some cp"
    and free: "\<not> cs_port_taken st (csp_pk csp) pk"
  shows "consoleport_connect st pk (POST (Some (csp, s))) =
         Inr (write_consoleport st (cp\<lparr>cs_port := Some (csp_pk csp), cp_connection_status := s\<rparr>),
              Redirect_success)"
proof -
  from f have "cp_pk cp = pk" using find_key [of cp_pk pk "console_ports st" cp] by simp
  with free have "save_consoleport st (cp\<lparr>cs_port := Some (csp_pk csp), cp_connection_status := s\<rparr>) =
      Inr (write_consoleport st (cp\<lparr>cs_port := Some (csp_pk csp), cp_connection_status := s\<rparr>))"
    by (simp add: save_consoleport_free)
  with f show ?thesis by (simp add: consoleport_connect_def)
qed

lemma consoleserverport_connect_sets:
  assumes f: "find (\<lambda>q. csp_pk q = pk) (cs_ports st) = Some csp"
    and free: "\<not> cs_port_taken st pk (cp_pk cp)"
  shows "consoleserverport_connect st pk (POST (Some (cp, s))) =
         Inr (write_consoleport st (cp\<lparr>cs_port := Some pk, cp_connection_status := s\<rparr>),
              Redirect_success)"
proof -
  from f have k: "csp_pk csp = pk" using find_key [of csp_pk pk "cs_ports st" csp] by simp
  from free have "save_consoleport st (cp\<lparr>cs_port := Some pk, cp_connection_status := s\<rparr>) =
      Inr (write_consoleport st (cp\<lparr>cs_port := Some pk, cp_connection_status := s\<rparr>))"
    by (simp add: save_consoleport_free)
  with f k show ?thesis by (simp add: consoleserverport_connect_def)
qed

lemma consoleserverport_connect_refused:
  assumes f: "find (\<lambda>q. csp_pk q = pk) (cs_ports st) = Some csp"
    and taken: "cs_port_taken st pk (cp_pk cp)"
  shows "consoleserverport_connect st pk (POST (Some (cp, s))) = Inl IntegrityError"
proof -
  from f have k: "csp_pk csp = pk" using find_key [of csp_pk pk "cs_ports st" csp] by simp
  from taken have "save_consoleport st (cp\<lparr>cs_port := Some pk, cp_connection_status := s\<rparr>) =
      Inl IntegrityError"
    by (simp add: save_consoleport_taken)
  with f k show ?thesis by (simp add: consoleserverport_connect_def)
qed

lemma consoleport_round_trip:
  assumes f: "find (\<lambda>q. cp_pk q = pk) (console_ports st) = Some cp"
    and n: "cs_port cp = None"
  shows "consoleport_disconnect
           (write_consoleport st (cp\<lparr>cs_port := Some c, cp_connection_status := s\<rparr>))
           pk (POST (Some ())) =
         Inr (write_consoleport st (cp\<lparr>cp_connection_status := None\<rparr>), Redirect_success)"
proof -
  let ?cp1 = "cp\<lparr>cs_port := Some c, cp_connection_status := s\<rparr>"
  let ?st1 = "write_consoleport st ?cp1"
  from f have pk: "cp_pk cp = pk" using find_key [of cp_pk pk "console_ports st" cp] by simp
  then have pk1: "cp_pk ?cp1 = pk" and pk2: "cp_pk (cp\<lparr>cp_connection_status := None\<rparr>) = pk"
    by simp_all
  have f1: "find (\<lambda>q. cp_pk q = pk) (console_ports ?st1) = Some ?cp1"
    using write_consoleport_row [OF f pk1] .
  have cleared: "?cp1\<lparr>cs_port := None, cp_connection_status := None\<rparr> =
      cp\<lparr>cp_connection_status := None\<rparr>"
    using n by simp
  have "consoleport_disconnect ?st1 pk (POST (Some ())) =
        Inr (write_consoleport ?st1 (cp\<lparr>cp_connection_status := None\<rparr>), Redirect_success)"
    using consoleport_disconnect_clears [OF f1] cleared by simp
  then show ?thesis
    using write_consoleport_twice [OF f pk1 pk2] by simp
qed

lemma consoleserverport_disconnect_same:
  assumes c: "find (\<lambda>q. csp_pk q = c) (cs_ports st) = Some csp"
    and one: "filter (\<lambda>q. cs_port q = Some c) (console_ports st) = [cp]"
  shows "consoleserverport_disconnect st c (POST (Some ())) =
         Inr (write_consoleport st (cp\<lparr>cs_port := None, cp_connection_status := None\<rparr>),
              Redirect_success)"
proof -
  from c have "csp_pk csp = c" using find_key [of csp_pk c "cs_ports st" csp] by simp
  then have "connected_console st csp = Some cp"
    using filter_single_find [OF one] by (simp add: connected_console_def)
  with c show ?thesis by (simp add: consoleserverport_disconnect_def save_consoleport_null)
qed

lemma write_consoleport_only:
  assumes "find (\<lambda>q. cp_pk q = pk) (console_ports st) = Some cp" and "cp_pk p = pk"
  shows "only_consoleport_changed st (write_consoleport st p) pk p"
  unfolding only_consoleport_changed_def
  using write_consoleport_row [OF assms] write_consoleport_others [OF assms]
    write_consoleport_frame [of st p]
  by (simp add: write_consoleport_def)

subsection \<open>Facts about power connections\<close>

lemma write_powerport_found:
  assumes "find (\<lambda>q. pp_pk q = pk) (power_ports st) = Some pp" and "pp_pk p = pk"
  shows "write_powerport st p =
    st\<lparr>power_ports := map (\<lambda>q. if pp_pk q = pk then p else q) (power_ports st)\<rparr>"
  using assms find_list_ex [of "\<lambda>q. pp_pk q = pk" "power_ports st" pp]
  by (simp add: write_powerport_def)

lemma write_powerport_row:
  assumes "find (\<lambda>q. pp_pk q = pk) (power_ports st) = Some pp" and "pp_pk p = pk"
  shows "find (\<lambda>q. pp_pk q = pk) (power_ports (write_powerport st p)) = Some p"
  using assms by (simp add: write_powerport_found [OF assms] find_map_update)

lemma write_powerport_others:
  assumes "find (\<lambda>q. pp_pk q = pk) (power_ports st) = Some pp" and "pp_pk p = pk"
  shows "filter (\<lambda>q. pp_pk q \<noteq> pk) (power_ports (write_powerport st p)) =
         filter (\<lambda>q. pp_pk q \<noteq> pk) (power_ports st)"
  using assms by (simp add: write_powerport_found [OF assms] filter_map_update)

lemma write_powerport_frame:
  "(write_powerport st p)\<lparr>power_ports := power_ports st\<rparr> = st"
  by (simp add: write_powerport_def)

lemma write_powerport_twice:
  assumes f: "find (\<lambda>q. pp_pk q = pk) (power_ports st) = Some pp"
    and p: "pp_pk p = pk" and q: "pp_pk p' = pk"
  shows "write_powerport (write_powerport st p) p' = write_powerport st p'"
proof -
  have f1: "find (\<lambda>q. pp_pk q = pk) (power_ports (write_powerport st p)) = Some p"
    using write_powerport_row [OF f p] .
  have "write_powerport (write_powerport st p) p' =
      (write_powerport st p)\<lparr>power_ports :=
         map (\<lambda>q. if pp_pk q = pk then p' else q) (power_ports (write_powerport st p))\<rparr>"
    using write_powerport_found [OF f1 q] .
  also have "\<dots> = st\<lparr>power_ports := map (\<lambda>q. if pp_pk q = pk then p' else q) (power_ports st)\<rparr>"
    using p by (simp add: write_powerport_found [OF f p] map_update_twice)
  also have "\<dots> = write_powerport st p'"
    using write_powerport_found [OF f q] by simp
  finally show ?thesis .
qed

lemma write_powerport_same:
  assumes f: "find (\<lambda>q. pp_pk q = pk) (power_ports st) = Some pp"
    and d: "distinct (map pp_pk (power_ports st))" and p: "pp_pk p = pk"
  shows "write_powerport st p = st \<longleftrightarrow> p = pp"
proof
  assume "write_powerport st p = st"
  then have "find (\<lambda>q. pp_pk q = pk) (power_ports st) = Some p"
    using write_powerport_row [OF f p] by simp
  with f show "p = pp" by simp
next
  assume e: "p = pp"
  have "write_powerport st pp =
      st\<lparr>power_ports := map (\<lambda>q. if pp_pk q = pk then pp else q) (power_ports st)\<rparr>"
    using write_powerport_found [OF f] p e by simp
  also have "\<dots> = st" using map_update_same [OF d f] by simp
  finally show "write_powerport st p = st" using e by simp
qed

lemma save_powerport_null:
  "power_outlet p = None \<Longrightarrow> save_powerport st p = Inr (write_powerport st p)"
  by (simp add: save_powerport_def)

lemma save_powerport_free:
  "power_outlet p = Some c \<Longrightarrow> \<not> power_outlet_taken st c (pp_pk p) \<Longrightarrow>
   save_powerport st p = Inr (write_powerport st p)"
  by (simp add: save_powerport_def)

lemma save_powerport_taken:
  "power_outlet p = Some c \<Longrightarrow> power_outlet_taken st c (pp_pk p) \<Longrightarrow>
   save_powerport st p = Inl IntegrityError"
  by (simp add: save_powerport_def)

lemma powerport_disconnect_warns:
  assumes "find (\<lambda>q. pp_pk q = pk) (power_ports st) = Some pp"
  shows "powerport_disconnect st pk req = Inr (st, Redirect_warning) \<longleftrightarrow> power_outlet pp = None"
  using assms
  by (auto simp: powerport_disconnect_def save_powerport_null
      split: request.splits option.splits)

lemma powerport_disconnect_clears:
  assumes "find (\<lambda>q. pp_pk q = pk) (power_ports st) = Some pp" and "power_outlet pp \<noteq> None"
  shows "powerport_disconnect st pk (POST (Some ())) =
         Inr (write_powerport st (pp\<lparr>power_outlet := None, pp_connection_status := None\<rparr>),
              Redirect_success)"
  using assms by (simp add: powerport_disconnect_def save_powerport_null)

lemma powerport_connect_sets:
  assumes f: "find (\<lambda>q. pp_pk q = pk) (power_ports st) = Some pp"
    and free: "\<not> power_outlet_taken st (po_pk po) pk"
  shows "powerport_connect st pk (POST (Some (po, s))) =
         Inr (write_powerport st (pp\<lparr>power_outlet := Some (po_pk po), pp_connection_status := s\<rparr>),
              Redirect_success)"
proof -
  from f have "pp_pk pp = pk" using find_key [of pp_pk pk "power_ports st" pp] by simp
  with free have "save_powerport st (pp\<lparr>power_outlet := Some (po_pk po), pp_connection_status := s\<rparr>) =
      Inr (write_powerport st (pp\<lparr>power_outlet := Some (po_pk po), pp_connection_status := s\<rparr>))"
    by (simp add: save_powerport_free)
  with f show ?thesis by (simp add: powerport_connect_def)
qed

lemma poweroutlet_connect_sets:
  assumes f: "find (\<lambda>q. po_pk q = pk) (power_outlets st) = Some po"
    and free: "\<not> power_outlet_taken st pk (pp_pk pp)"
  shows "poweroutlet_connect st pk (POST (Some (pp, s))) =
         Inr (write_powerport st (pp\<lparr>power_outlet := Some pk, pp_connection_status := s\<rparr>),
              Redirect_success)"
proof -
  from f have k: "po_pk po = pk" using find_key [of po_pk pk "power_outlets st" po] by simp
  from free have "save_powerport st (pp\<lparr>power_outlet := Some pk, pp_connection_status := s\<rparr>) =
      Inr (write_powerport st (pp\<lparr>power_outlet := Some pk, pp_connection_status := s\<rparr>))"
    by (simp add: save_powerport_free)
  with f k show ?thesis by (simp add: poweroutlet_connect_def)
qed

lemma poweroutlet_connect_refused:
  assumes f: "find (\<lambda>q. po_pk q = pk) (power_outlets st) = Some po"
    and taken: "power_outlet_taken st pk (pp_pk pp)"
  shows "poweroutlet_connect st pk (POST (Some (pp, s))) = Inl IntegrityError"
proof -
  from f have k: "po_pk po = pk" using find_key [of po_pk pk "power_outlets st" po] by simp
  from taken have "save_powerport st (pp\<lparr>power_outlet := Some pk, pp_connection_status := s\<rparr>) =
      Inl IntegrityError"
    by (simp add: save_powerport_taken)
  with f k show ?thesis by (simp add: poweroutlet_connect_def)
qed

lemma powerport_round_trip:
  assumes f: "find (\<lambda>q. pp_pk q = pk) (power_ports st) = Some pp"
    and n: "power_outlet pp = None"
  shows "powerport_disconnect
           (write_powerport st (pp\<lparr>power_outlet := Some c, pp_connection_status := s\<rparr>))
           pk (POST (Some ())) =
         Inr (write_powerport st (pp\<lparr>pp_connection_status := None\<rparr>), Redirect_success)"
proof -
  let ?cp1 = "pp\<lparr>power_outlet := Some c, pp_connection_status := s\<rparr>"
  let ?st1 = "write_powerport st ?cp1"
  from f have pk: "pp_pk pp = pk" using find_key [of pp_pk pk "power_ports st" pp] by simp
  then have pk1: "pp_pk ?cp1 = pk" and pk2: "pp_pk (pp\<lparr>pp_connection_status := None\<rparr>) = pk"
    by simp_all
  have f1: "find (\<lambda>q. pp_pk q = pk) (power_ports ?st1) = Some ?cp1"
    using write_powerport_row [OF f pk1] .
  have cleared: "?cp1\<lparr>power_outlet := None, pp_connection_status := None\<rparr> =
      pp\<lparr>pp_connection_status := None\<rparr>"
    using n by simp
  have "powerport_disconnect ?st1 pk (POST (Some ())) =
        Inr (write_powerport ?st1 (pp\<lparr>pp_connection_status := None\<rparr>), Redirect_success)"
    using powerport_disconnect_clears [OF f1] cleared by simp
  then show ?thesis
    using write_powerport_twice [OF f pk1 pk2] by simp
qed

lemma poweroutlet_disconnect_same:
  assumes c: "find (\<lambda>q. po_pk q = c) (power_outlets st) = Some po"
    and one: "filter (\<lambda>q. power_outlet q = Some c) (power_ports st) = [pp]"
  shows "poweroutlet_disconnect st c (POST (Some ())) =
         Inr (write_powerport st (pp\<lparr>power_outlet := None, pp_connection_status := None\<rparr>),
              Redirect_success)"
proof -
  from c have "po_pk po = c" using find_key [of po_pk c "power_outlets st" po] by simp
  then have "connected_port st po = Some pp"
    using filter_single_find [OF one] by (simp add: connected_port_def)
  with c show ?thesis by (simp add: poweroutlet_disconnect_def save_powerport_null)
qed

lemma write_powerport_only:
  assumes "find (\<lambda>q. pp_pk q = pk) (power_ports st) = Some pp" and "pp_pk p = pk"
  shows "only_powerport_changed st (write_powerport st p) pk p"
  unfolding only_powerport_changed_def
  using write_powerport_row [OF assms] write_powerport_others [OF assms]
    write_powerport_frame [of st p]
  by (simp add: write_powerport_def)

section \<open>Stores for the examples\<close>

text \<open>
  Three devices; a console port and a power port of the first device wired to the
  terminal server and to the power distribution unit, a second port of each kind not
  connected; the interface \<^verbatim>\<open>eth0\<close> on two devices, connected to each other.
\<close>

definition con0 :: consoleport where
  "con0 = \<lparr>cp_pk = 1, cp_device = 1, cp_name = ''con0'', cs_port = Some 1,
            cp_connection_status = Some Connected\<rparr>"

definition con1 :: consoleport where
  "con1 = \<lparr>cp_pk = 2, cp_device = 1, cp_name = ''con1'', cs_port = None,
            cp_connection_status = None\<rparr>"

definition tty1 :: consoleserverport where
  "tty1 = \<lparr>csp_pk = 1, csp_device = 2, csp_name = ''tty1''\<rparr>"

definition tty2 :: consoleserverport where
  "tty2 = \<lparr>csp_pk = 2, csp_device = 2, csp_name = ''tty2''\<rparr>"

definition psu0 :: powerport where
  "psu0 = \<lparr>pp_pk = 1, pp_device = 1, pp_name = ''psu0'', power_outlet = Some 1,
            pp_connection_status = Some Connected\<rparr>"

definition psu1 :: powerport where
  "psu1 = \<lparr>pp_pk = 2, pp_device = 1, pp_name = ''psu1'', power_outlet = None,
            pp_connection_status = None\<rparr>"

definition out1 :: poweroutlet where
  "out1 = \<lparr>po_pk = 1, po_device = 3, po_name = ''out1''\<rparr>"

definition out2 :: poweroutlet where
  "out2 = \<lparr>po_pk = 2, po_device = 3, po_name = ''out2''\<rparr>"

definition example_store :: store where
  "example_store =
     \<lparr>devices =
        [\<lparr>dev_pk = 1, dev_name = ''sw1''\<rparr>, \<lparr>dev_pk = 2, dev_name = ''ts1''\<rparr>,
         \<lparr>dev_pk = 3, dev_name = ''pdu1''\<rparr>],
      console_ports = [con0, con1],
      cs_ports = [tty1, tty2],
      power_ports = [psu0, psu1],
      power_outlets = [out1, out2],
      interfaces =
        [\<lparr>if_pk = 1, if_device = 1, if_name = ''eth0'', form_factor = 0, mgmt_only = False,
          description = []\<rparr>,
         \<lparr>if_pk = 2, if_device = 2, if_name = ''eth0'', form_factor = 0, mgmt_only = False,
          description = []\<rparr>],
      interface_connections = [\<lparr>ic_pk = 1, interface_a = 1, interface_b = 2\<rparr>]\<rparr>"

text \<open>
  The store after a third console port of the first device has been created, with a
  status set though it has no partner.
\<close>

definition con2 :: consoleport where
  "con2 = \<lparr>cp_pk = 3, cp_device = 1, cp_name = ''con2'', cs_port = None,
            cp_connection_status = Some Connected\<rparr>"

definition created_store :: store where
  "created_store = example_store\<lparr>console_ports := [con0, con1, con2]\<rparr>"

text \<open>
  A store with two connections of each kind, stored in the opposite order of their
  partners' names, and a console port and a power port that are not connected.
\<close>

definition topology_store :: store where
  "topology_store =
     \<lparr>devices =
        [\<lparr>dev_pk = 1, dev_name = ''sw1''\<rparr>, \<lparr>dev_pk = 2, dev_name = ''sw2''\<rparr>,
         \<lparr>dev_pk = 3, dev_name = ''ts1''\<rparr>, \<lparr>dev_pk = 4, dev_name = ''pdu1''\<rparr>],
      console_ports =
        [\<lparr>cp_pk = 1, cp_device = 1, cp_name = ''con0'', cs_port = Some 2,
          cp_connection_status = Some Connected\<rparr>,
         \<lparr>cp_pk = 2, cp_device = 2, cp_name = ''con0'', cs_port = Some 1,
          cp_connection_status = Some Planned\<rparr>,
         \<lparr>cp_pk = 3, cp_device = 2, cp_name = ''con1'', cs_port = None,
          cp_connection_status = None\<rparr>],
      cs_ports =
        [\<lparr>csp_pk = 1, csp_device = 3, csp_name = ''tty1''\<rparr>,
         \<lparr>csp_pk = 2, csp_device = 3, csp_name = ''tty2''\<rparr>],
      power_ports =
        [\<lparr>pp_pk = 1, pp_device = 1, pp_name = ''psu0'', power_outlet = Some 2,
          pp_connection_status = Some Connected\<rparr>,
         \<lparr>pp_pk = 2, pp_device = 2, pp_name = ''psu0'', power_outlet = Some 1,
          pp_connection_status = Some Planned\<rparr>,
         \<lparr>pp_pk = 3, pp_device = 2, pp_name = ''psu1'', power_outlet = None,
          pp_connection_status = None\<rparr>],
      power_outlets =
        [\<lparr>po_pk = 1, po_device = 4, po_name = ''out1''\<rparr>,
         \<lparr>po_pk = 2, po_device = 4, po_name = ''out2''\<rparr>],
      interfaces =
        [\<lparr>if_pk = 1, if_device = 2, if_name = ''eth0'', form_factor = 0, mgmt_only = False,
          description = []\<rparr>,
         \<lparr>if_pk = 2, if_device = 1, if_name = ''eth1'', form_factor = 0, mgmt_only = False,
          description = []\<rparr>,
         \<lparr>if_pk = 3, if_device = 1, if_name = ''eth0'', form_factor = 0, mgmt_only = False,
          description = []\<rparr>,
         \<lparr>if_pk = 4, if_device = 2, if_name = ''eth1'', form_factor = 0, mgmt_only = False,
          description = []\<rparr>],
      interface_connections =
        [\<lparr>ic_pk = 1, interface_a = 1, interface_b = 2\<rparr>,
         \<lparr>ic_pk = 2, interface_a = 3, interface_b = 4\<rparr>]\<rparr>"

lemma example_console_rows:
  "find (\<lambda>q. cp_pk q = 1) (console_ports example_store) = Some con0"
  "find (\<lambda>q. cp_pk q = 2) (console_ports example_store) = Some con1"
  "find (\<lambda>q. csp_pk q = 1) (cs_ports example_store) = Some tty1"
  "find (\<lambda>q. csp_pk q = 2) (cs_ports example_store) = Some tty2"
  "filter (\<lambda>q. cs_port q = Some 1) (console_ports example_store) = [con0]"
  "distinct (map cp_pk (console_ports example_store))"
  "cs_port con0 = Some 1" "cs_port con1 = None" "cp_connection_status con1 = None"
  "csp_pk tty2 = 2"
  "\<not> cs_port_taken example_store (csp_pk tty2) 2"
  "\<not> cs_port_taken example_store (csp_pk tty2) 1"
  "\<not> cs_port_taken example_store 2 1"
  by (simp_all add: example_store_def con0_def con1_def tty1_def tty2_def cs_port_taken_def)

lemma example_power_rows:
  "find (\<lambda>q. pp_pk q = 1) (power_ports example_store) = Some psu0"
  "find (\<lambda>q. pp_pk q = 2) (power_ports example_store) = Some psu1"
  "find (\<lambda>q. po_pk q = 1) (power_outlets example_store) = Some out1"
  "find (\<lambda>q. po_pk q = 2) (power_outlets example_store) = Some out2"
  "filter (\<lambda>q. power_outlet q = Some 1) (power_ports example_store) = [psu0]"
  "distinct (map pp_pk (power_ports example_store))"
  "power_outlet psu0 = Some 1" "power_outlet psu1 = None" "pp_connection_status psu1 = None"
  "po_pk out2 = 2"
  "\<not> power_outlet_taken example_store (po_pk out2) 2"
  "\<not> power_outlet_taken example_store (po_pk out2) 1"
  "\<not> power_outlet_taken example_store 2 1"
  by (simp_all add: example_store_def psu0_def psu1_def out1_def out2_def power_outlet_taken_def)

lemma topology_console_rows:
  "find (\<lambda>q. csp_pk q = 1) (cs_ports topology_store) = Some (hd (cs_ports topology_store))"
  "find (\<lambda>q. cp_pk q = 1) (console_ports topology_store) =
     Some (hd (console_ports topology_store))"
  "cs_port (hd (console_ports topology_store)) = Some 2"
  "cs_port_taken topology_store 1 1"
  by (simp_all add: topology_store_def cs_port_taken_def)

lemma topology_power_rows:
  "find (\<lambda>q. po_pk q = 1) (power_outlets topology_store) =
     Some (hd (power_outlets topology_store))"
  "find (\<lambda>q. pp_pk q = 1) (power_ports topology_store) =
     Some (hd (power_ports topology_store))"
  "power_outlet (hd (power_ports topology_store)) = Some 2"
  "power_outlet_taken topology_store 1 1"
  by (simp_all add: topology_store_def power_outlet_taken_def)

section \<open>Creating ports in bulk\<close>

text \<open>
  Modelled from the spec: \<^verbatim>\<open>ConsolePortForm(...).is_valid()\<close> and
  \<^verbatim>\<open>InterfaceForm(...).is_valid()\<close>, whose form classes are in \<^verbatim>\<open>forms.py\<close>, not in
  the sources. "For every proposed name, check uniqueness among existing ports of the same
  kind on the same device": the form validates when no stored port of that kind on that
  device has the name.
\<close>

definition consoleport_form_is_valid :: "store \<Rightarrow> nat \<Rightarrow> string \<Rightarrow> bool" where
  "consoleport_form_is_valid st device name =
     (\<not> list_ex (\<lambda>p. cp_device p = device \<and> cp_name p = name) (console_ports st))"

definition interface_form_is_valid :: "store \<Rightarrow> nat \<Rightarrow> string \<Rightarrow> bool" where
  "interface_form_is_valid st device name =
     (\<not> list_ex (\<lambda>p. if_device p = device \<and> if_name p = name) (interfaces st))"

text \<open>
  The primary key that the store gives to the next inserted row of a table with the
  given keys.
\<close>

definition next_pk :: "nat list \<Rightarrow> nat" where
  "next_pk pks = Suc (fold max pks 0)"

text \<open>
  Modelled from the spec: \<^verbatim>\<open>ConsolePort.objects.bulk_create\<close> and
  \<^verbatim>\<open>Interface.objects.bulk_create\<close> of the object store, which "enforces uniqueness
  constraints (device + kind + name)" and persists the ports "in a single logical action":
  all instances are inserted with fresh primary keys, unless the table would then hold
  two ports of one device with one name, in which case nothing is inserted and the store
  raises \<^verbatim>\<open>IntegrityError\<close>.
\<close>

definition bulk_create_consoleports :: "store \<Rightarrow> consoleport list \<Rightarrow> error + store" where
  "bulk_create_consoleports st objs =
     (let rows = console_ports st; n = next_pk (map cp_pk rows)
      in if distinct (map (\<lambda>p. (cp_device p, cp_name p)) (rows @ objs))
         then Inr (st\<lparr>console_ports :=
                       rows @ map (\<lambda>(i, p). p\<lparr>cp_pk := i\<rparr>) (zip [n..<n + length objs] objs)\<rparr>)
         else Inl IntegrityError)"

definition bulk_create_interfaces :: "store \<Rightarrow> interface list \<Rightarrow> error + store" where
  "bulk_create_interfaces st objs =
     (let rows = interfaces st; n = next_pk (map if_pk rows)
      in if distinct (map (\<lambda>p. (if_device p, if_name p)) (rows @ objs))
         then Inr (st\<lparr>interfaces :=
                       rows @ map (\<lambda>(i, p). p\<lparr>if_pk := i\<rparr>) (zip [n..<n + length objs] objs)\<rparr>)
         else Inl IntegrityError)"

text \<open>
  The loop of \<^verbatim>\<open>consoleport_add\<close> (views.py lines 588-597) over the expanded names, on
  the list of unsaved instances and the list of form errors collected so far.
  \<^verbatim>\<open>cp_form.save(commit=False)\<close> builds an instance that is not in the store; its
  primary key, assigned on insertion, is 0 until then. The fields that the form does not
  set have the defaults of the model class, which \<^verbatim>\<open>views.py\<close> does not hold: no
  partner, and for the status the value \<open>default_status\<close>.
\<close>

fun consoleport_add_loop ::
  "store \<Rightarrow> status option \<Rightarrow> device \<Rightarrow> string list \<Rightarrow>
   consoleport list \<times> form_error list \<Rightarrow> consoleport list \<times> form_error list" where
  "consoleport_add_loop st default_status device [] (console_ports', errors) =
     (console_ports', errors)"
| "consoleport_add_loop st default_status device (name # names) (console_ports', errors) =
     (if consoleport_form_is_valid st (dev_pk device) name
      then consoleport_add_loop st default_status device names
             (console_ports' @
                [\<lparr>cp_pk = 0, cp_device = dev_pk device, cp_name = name, cs_port = None,
                  cp_connection_status = default_status\<rparr>],
              errors)
      else consoleport_add_loop st default_status device names
             (console_ports', errors @ [Duplicate_name name]))"

text \<open>
  \<^verbatim>\<open>consoleport_add\<close> (views.py lines 579-614). The cleaned \<^verbatim>\<open>name_pattern\<close> of the
  outer form is the list of expanded names. \<^verbatim>\<open>bulk_create\<close> is reached only when the
  loop added no error.
\<close>

definition consoleport_add ::
  "store \<Rightarrow> status option \<Rightarrow> nat \<Rightarrow> string list request \<Rightarrow> error + store \<times> response" where
  "consoleport_add st default_status pk req =
     (case find (\<lambda>d. dev_pk d = pk) (devices st) of
        None \<Rightarrow> Inl Http404
      | Some device \<Rightarrow>
          (case req of
             POST (Some name_pattern) \<Rightarrow>
               (case consoleport_add_loop st default_status device name_pattern ([], []) of
                  (console_ports', errors) \<Rightarrow>
                    if errors = [] then
                      (case bulk_create_consoleports st console_ports' of
                         Inl e \<Rightarrow> Inl e
                       | Inr st' \<Rightarrow> Inr (st', Redirect_success))
                    else Inr (st, Render errors))
           | _ \<Rightarrow> Inr (st, Render [])))"

text \<open>
  The loop of \<^verbatim>\<open>interface_add\<close> (views.py lines 1181-1193); the three shared attributes
  come from the cleaned data of the outer form.
\<close>

fun interface_add_loop ::
  "store \<Rightarrow> device \<Rightarrow> nat \<times> bool \<times> string \<Rightarrow> string list \<Rightarrow>
   interface list \<times> form_error list \<Rightarrow> interface list \<times> form_error list" where
  "interface_add_loop st device attrs [] (interfaces', errors) = (interfaces', errors)"
| "interface_add_loop st device attrs (name # names) (interfaces', errors) =
     (if interface_form_is_valid st (dev_pk device) name
      then interface_add_loop st device attrs names
             (interfaces' @
                [\<lparr>if_pk = 0, if_device = dev_pk device, if_name = name,
                  form_factor = fst attrs, mgmt_only = fst (snd attrs),
                  description = snd (snd attrs)\<rparr>],
              errors)
      else interface_add_loop st device attrs names
             (interfaces', errors @ [Duplicate_name name]))"

text \<open>\<^verbatim>\<open>interface_add\<close> (views.py lines 1172-1210).\<close>

definition interface_add ::
  "store \<Rightarrow> nat \<Rightarrow> (string list \<times> nat \<times> bool \<times> string) request \<Rightarrow>
   error + store \<times> response" where
  "interface_add st pk req =
     (case find (\<lambda>d. dev_pk d = pk) (devices st) of
        None \<Rightarrow> Inl Http404
      | Some device \<Rightarrow>
          (case req of
             POST (Some (name_pattern, attrs)) \<Rightarrow>
               (case interface_add_loop st device attrs name_pattern ([], []) of
                  (interfaces', errors) \<Rightarrow>
                    if errors = [] then
                      (case bulk_create_interfaces st interfaces' of
                         Inl e \<Rightarrow> Inl e
                       | Inr st' \<Rightarrow> Inr (st', Redirect_success))
                    else Inr (st, Render errors))
           | _ \<Rightarrow> Inr (st, Render [])))"

text \<open>
  \<^verbatim>\<open>InterfaceBulkAddView.update_objects\<close> (views.py lines 1264-1286). The selected
  devices are the devices of the store whose key is in \<^verbatim>\<open>pk_list\<close>. The form arrives
  with the errors it already has; the method adds one for every refused pair of device
  and name, and creates the interfaces only if the form has no error at all. The result
  is the store and the form's errors afterwards.
\<close>

fun update_objects_names ::
  "store \<Rightarrow> device \<Rightarrow> nat \<times> bool \<times> string \<Rightarrow> string list \<Rightarrow>
   interface list \<times> form_error list \<Rightarrow> interface list \<times> form_error list" where
  "update_objects_names st device attrs [] (interfaces', errors) = (interfaces', errors)"
| "update_objects_names st device attrs (name # names) (interfaces', errors) =
     (if interface_form_is_valid st (dev_pk device) name
      then update_objects_names st device attrs names
             (interfaces' @
                [\<lparr>if_pk = 0, if_device = dev_pk device, if_name = name,
                  form_factor = fst attrs, mgmt_only = fst (snd attrs),
                  description = snd (snd attrs)\<rparr>],
              errors)
      else update_objects_names st device attrs names
             (interfaces', errors @ [Duplicate_interface name (dev_pk device)]))"

fun update_objects_devices ::
  "store \<Rightarrow> nat \<times> bool \<times> string \<Rightarrow> string list \<Rightarrow> device list \<Rightarrow>
   interface list \<times> form_error list \<Rightarrow> interface list \<times> form_error list" where
  "update_objects_devices st attrs names [] acc = acc"
| "update_objects_devices st attrs names (device # selected_devices) acc =
     update_objects_devices st attrs names selected_devices
       (update_objects_names st device attrs names acc)"

definition update_objects ::
  "store \<Rightarrow> form_error list \<Rightarrow> nat list \<Rightarrow> string list \<times> nat \<times> bool \<times> string \<Rightarrow>
   error + store \<times> form_error list" where
  "update_objects st form_errors pk_list cleaned_data =
     (let selected_devices = filter (\<lambda>d. dev_pk d \<in> set pk_list) (devices st)
      in case update_objects_devices st (snd cleaned_data) (fst cleaned_data) selected_devices
                ([], form_errors) of
           (interfaces', errors) \<Rightarrow>
             if errors = [] then
               (case bulk_create_interfaces st interfaces' of
                  Inl e \<Rightarrow> Inl e
                | Inr st' \<Rightarrow> Inr (st', errors))
             else Inr (st, errors))"

subsection \<open>Facts about the loops\<close>

lemma consoleport_add_loop_eq:
  "consoleport_add_loop st default_status device names (ps, es) =
     (ps @ map (\<lambda>name. \<lparr>cp_pk = 0, cp_device = dev_pk device, cp_name = name, cs_port = None,
                        cp_connection_status = default_status\<rparr>)
            (filter (consoleport_form_is_valid st (dev_pk device)) names),
      es @ map Duplicate_name
             (filter (\<lambda>name. \<not> consoleport_form_is_valid st (dev_pk device) name) names))"
  by (induction names arbitrary: ps es) simp_all

lemma interface_add_loop_eq:
  "interface_add_loop st device attrs names (ps, es) =
     (ps @ map (\<lambda>name. \<lparr>if_pk = 0, if_device = dev_pk device, if_name = name,
                        form_factor = fst attrs, mgmt_only = fst (snd attrs),
                        description = snd (snd attrs)\<rparr>)
            (filter (interface_form_is_valid st (dev_pk device)) names),
      es @ map Duplicate_name
             (filter (\<lambda>name. \<not> interface_form_is_valid st (dev_pk device) name) names))"
  by (induction names arbitrary: ps es) simp_all

lemma update_objects_names_errors:
  "snd (update_objects_names st device attrs names (ps, es)) =
     es @ map (\<lambda>name. Duplicate_interface name (dev_pk device))
            (filter (\<lambda>name. \<not> interface_form_is_valid st (dev_pk device) name) names)"
  by (induction names arbitrary: ps es) simp_all

lemma update_objects_devices_errors:
  "snd (update_objects_devices st attrs names selected acc) =
     snd acc @
     concat (map (\<lambda>device. map (\<lambda>name. Duplicate_interface name (dev_pk device))
                   (filter (\<lambda>name. \<not> interface_form_is_valid st (dev_pk device) name) names))
               selected)"
proof (induction selected arbitrary: acc)
  case Nil
  then show ?case by simp
next
  case (Cons device selected)
  obtain ps es where acc: "acc = (ps, es)" by (cases acc)
  show ?case
    using update_objects_names_errors [of st device attrs names ps es]
    by (simp add: Cons.IH acc)
qed

text \<open>
  The pairs of a selected device and a name that \<^verbatim>\<open>update_objects\<close> refuses, in the order
  of its two loops.
\<close>

definition failing_pairs :: "store \<Rightarrow> nat list \<Rightarrow> string list \<Rightarrow> (nat \<times> string) list" where
  "failing_pairs st pk_list names =
     concat (map (\<lambda>device. map (\<lambda>name. (dev_pk device, name))
                   (filter (\<lambda>name. \<not> interface_form_is_valid st (dev_pk device) name) names))
               (filter (\<lambda>d. dev_pk d \<in> set pk_list) (devices st)))"

lemma consoleport_add_result:
  assumes "find (\<lambda>d. dev_pk d = pk) (devices st) = Some device"
  shows "consoleport_add st default_status pk (POST (Some names)) =
     (if filter (\<lambda>name. \<not> consoleport_form_is_valid st pk name) names = [] then
        (case bulk_create_consoleports st
                (map (\<lambda>name. \<lparr>cp_pk = 0, cp_device = pk, cp_name = name, cs_port = None,
                               cp_connection_status = default_status\<rparr>) names) of
           Inl e \<Rightarrow> Inl e
         | Inr st' \<Rightarrow> Inr (st', Redirect_success))
      else Inr (st, Render (map Duplicate_name
                 (filter (\<lambda>name. \<not> consoleport_form_is_valid st pk name) names))))"
proof -
  from assms have pk: "dev_pk device = pk"
    using find_key [of dev_pk pk "devices st" device] by simp
  have all: "filter (\<lambda>name. \<not> consoleport_form_is_valid st pk name) names = [] \<Longrightarrow>
      filter (consoleport_form_is_valid st pk) names = names"
    by (simp add: filter_empty_conv filter_id_conv)
  show ?thesis
    using assms pk all by (simp add: consoleport_add_def consoleport_add_loop_eq)
qed

lemma interface_add_result:
  assumes "find (\<lambda>d. dev_pk d = pk) (devices st) = Some device"
  shows "interface_add st pk (POST (Some (names, attrs))) =
     (if filter (\<lambda>name. \<not> interface_form_is_valid st pk name) names = [] then
        (case bulk_create_interfaces st
                (map (\<lambda>name. \<lparr>if_pk = 0, if_device = pk, if_name = name,
                               form_factor = fst attrs, mgmt_only = fst (snd attrs),
                               description = snd (snd attrs)\<rparr>) names) of
           Inl e \<Rightarrow> Inl e
         | Inr st' \<Rightarrow> Inr (st', Redirect_success))
      else Inr (st, Render (map Duplicate_name
                 (filter (\<lambda>name. \<not> interface_form_is_valid st pk name) names))))"
proof -
  from assms have pk: "dev_pk device = pk"
    using find_key [of dev_pk pk "devices st" device] by simp
  have all: "filter (\<lambda>name. \<not> interface_form_is_valid st pk name) names = [] \<Longrightarrow>
      filter (interface_form_is_valid st pk) names = names"
    by (simp add: filter_empty_conv filter_id_conv)
  show ?thesis
    using assms pk all by (simp add: interface_add_def interface_add_loop_eq)
qed

lemma update_objects_result:
  "update_objects st form_errors pk_list (names, attrs) =
     (case update_objects_devices st attrs names
             (filter (\<lambda>d. dev_pk d \<in> set pk_list) (devices st)) ([], form_errors) of
        (objs, errors) \<Rightarrow>
          if form_errors = [] \<and> failing_pairs st pk_list names = [] then
            (case bulk_create_interfaces st objs of
               Inl e \<Rightarrow> Inl e
             | Inr st' \<Rightarrow> Inr (st', []))
          else Inr (st, form_errors @
                    map (\<lambda>(d, name). Duplicate_interface name d) (failing_pairs st pk_list names)))"
proof -
  let ?sel = "filter (\<lambda>d. dev_pk d \<in> set pk_list) (devices st)"
  obtain objs errors where
    l: "update_objects_devices st attrs names ?sel ([], form_errors) = (objs, errors)"
    by (cases "update_objects_devices st attrs names ?sel ([], form_errors)")
  have "errors = snd (update_objects_devices st attrs names ?sel ([], form_errors))"
    using l by simp
  then have e: "errors = form_errors @
      map (\<lambda>(d, name). Duplicate_interface name d) (failing_pairs st pk_list names)"
    by (simp add: update_objects_devices_errors failing_pairs_def map_concat comp_def)
  have run: "update_objects st form_errors pk_list (names, attrs) =
      (if errors = [] then
         (case bulk_create_interfaces st objs of
            Inl e \<Rightarrow> Inl e
          | Inr st' \<Rightarrow> Inr (st', []))
       else Inr (st, errors))"
    using l by (cases "errors = []") (simp_all add: update_objects_def)
  have none: "errors = [] \<longleftrightarrow> form_errors = [] \<and> failing_pairs st pk_list names = []"
    using e by simp
  show ?thesis
    unfolding run l prod.case none
    using e by simp
qed

section \<open>Claims about point-to-point connections\<close>

text \<open>
  C4, as stated: a disconnect leaves the port in a state indistinguishable from never
  having been connected. On the code the disconnect views write null to the status; the
  status of a port that was never connected is the one it was created with, which no
  view sets. For a console port created with the status \<^verbatim>\<open>Connected\<close> as the default of
  its model class: the port has no partner, and the disconnect view says so; after it
  has been connected and disconnected it has no partner and no status, and the store is
  not the one from before the connection.
\<close>

theorem C4_counterexample:
  "consoleport_add example_store (Some Connected) 1 (POST (Some [''con2''])) =
     Inr (created_store, Redirect_success) \<and>
   find (\<lambda>q. cp_pk q = 3) (console_ports created_store) = Some con2 \<and>
   cs_port con2 = None \<and> cp_connection_status con2 = Some Connected \<and>
   consoleport_disconnect created_store 3 (POST (Some ())) =
     Inr (created_store, Redirect_warning) \<and>
   (case consoleport_connect created_store 3 (POST (Some (tty2, Some Planned))) of
      Inl e \<Rightarrow> False
    | Inr (st1, r) \<Rightarrow>
        (case consoleport_disconnect st1 3 (POST (Some ())) of
           Inl e \<Rightarrow> False
         | Inr (st2, r') \<Rightarrow>
             find (\<lambda>q. cp_pk q = 3) (console_ports st2) =
               Some (con2\<lparr>cp_connection_status := None\<rparr>) \<and>
             st2 \<noteq> created_store))"
proof -
  have a: "consoleport_add example_store (Some Connected) 1 (POST (Some [''con2''])) =
      Inr (created_store, Redirect_success)"
    by (simp add: consoleport_add_def consoleport_form_is_valid_def
        bulk_create_consoleports_def next_pk_def created_store_def example_store_def
        con0_def con1_def con2_def)
  have f: "find (\<lambda>q. cp_pk q = 3) (console_ports created_store) = Some con2"
    by (simp add: created_store_def con0_def con1_def con2_def)
  have n: "cs_port con2 = None" "cp_connection_status con2 = Some Connected"
    by (simp_all add: con2_def)
  have w: "consoleport_disconnect created_store 3 (POST (Some ())) =
      Inr (created_store, Redirect_warning)"
    using consoleport_disconnect_warns [OF f] n by simp
  have free: "\<not> cs_port_taken created_store (csp_pk tty2) 3"
    by (simp add: cs_port_taken_def created_store_def con0_def con1_def con2_def tty2_def)
  have con: "consoleport_connect created_store 3 (POST (Some (tty2, Some Planned))) =
      Inr (write_consoleport created_store
             (con2\<lparr>cs_port := Some (csp_pk tty2), cp_connection_status := Some Planned\<rparr>),
           Redirect_success)"
    using f free by (rule consoleport_connect_sets)
  have dis: "consoleport_disconnect
      (write_consoleport created_store
         (con2\<lparr>cs_port := Some (csp_pk tty2), cp_connection_status := Some Planned\<rparr>))
      3 (POST (Some ())) =
      Inr (write_consoleport created_store (con2\<lparr>cp_connection_status := None\<rparr>),
           Redirect_success)"
    using f n(1) by (rule consoleport_round_trip)
  have k: "cp_pk (con2\<lparr>cp_connection_status := None\<rparr>) = 3" by (simp add: con2_def)
  have row: "find (\<lambda>q. cp_pk q = 3)
      (console_ports (write_consoleport created_store (con2\<lparr>cp_connection_status := None\<rparr>))) =
      Some (con2\<lparr>cp_connection_status := None\<rparr>)"
    using write_consoleport_row [OF f k] .
  have "con2\<lparr>cp_connection_status := None\<rparr> \<noteq> con2" by (simp add: con2_def)
  with row f have ne: "write_consoleport created_store (con2\<lparr>cp_connection_status := None\<rparr>) \<noteq>
      created_store"
    by (metis option.inject)
  show ?thesis using a f n w row ne by (simp add: con dis)
qed

text \<open>
  C4, amended. For a console port (first conjunct) and a power port (second conjunct) of
  the store: the disconnect view answers with the warning "not connected", and leaves
  the store as it is, exactly when the partner reference is unset. When it is set, the
  confirmed request clears the partner reference and the connection status in one save
  of that row: the row then holds both fields null with all its other fields as before,
  every other row of the table and every other table is unchanged. So connecting a port
  without a reference (to a partner that no other port references) and disconnecting it
  again leaves the store as it was but for the status of that port, which is null now:
  the store is the one from before the connection exactly when the status of the port
  was null then (primary keys being unique).
\<close>

theorem C4_disconnect:
  "(find (\<lambda>q. cp_pk q = pk) (console_ports st) = Some cp \<longrightarrow>
      (consoleport_disconnect st pk req = Inr (st, Redirect_warning) \<longleftrightarrow> cs_port cp = None) \<and>
      (cs_port cp \<noteq> None \<longrightarrow>
         consoleport_disconnect st pk (POST (Some ())) =
           Inr (write_consoleport st (cp\<lparr>cs_port := None, cp_connection_status := None\<rparr>),
                Redirect_success) \<and>
         only_consoleport_changed st
           (write_consoleport st (cp\<lparr>cs_port := None, cp_connection_status := None\<rparr>))
           pk (cp\<lparr>cs_port := None, cp_connection_status := None\<rparr>)) \<and>
      (distinct (map cp_pk (console_ports st)) \<and> cs_port cp = None \<and>
       \<not> cs_port_taken st (csp_pk csp) pk \<longrightarrow>
         (case consoleport_connect st pk (POST (Some (csp, s))) of
            Inl e \<Rightarrow> False
          | Inr (st1, r) \<Rightarrow>
              consoleport_disconnect st1 pk (POST (Some ())) =
                Inr (write_consoleport st (cp\<lparr>cp_connection_status := None\<rparr>), Redirect_success) \<and>
              (consoleport_disconnect st1 pk (POST (Some ())) = Inr (st, Redirect_success) \<longleftrightarrow>
                 cp_connection_status cp = None)) \<and>
         only_consoleport_changed st
           (write_consoleport st (cp\<lparr>cp_connection_status := None\<rparr>))
           pk (cp\<lparr>cp_connection_status := None\<rparr>)))
   \<and>
   (find (\<lambda>q. pp_pk q = pk) (power_ports st) = Some pp \<longrightarrow>
      (powerport_disconnect st pk req = Inr (st, Redirect_warning) \<longleftrightarrow> power_outlet pp = None) \<and>
      (power_outlet pp \<noteq> None \<longrightarrow>
         powerport_disconnect st pk (POST (Some ())) =
           Inr (write_powerport st (pp\<lparr>power_outlet := None, pp_connection_status := None\<rparr>),
                Redirect_success) \<and>
         only_powerport_changed st
           (write_powerport st (pp\<lparr>power_outlet := None, pp_connection_status := None\<rparr>))
           pk (pp\<lparr>power_outlet := None, pp_connection_status := None\<rparr>)) \<and>
      (distinct (map pp_pk (power_ports st)) \<and> power_outlet pp = None \<and>
       \<not> power_outlet_taken st (po_pk po) pk \<longrightarrow>
         (case powerport_connect st pk (POST (Some (po, s))) of
            Inl e \<Rightarrow> False
          | Inr (st1, r) \<Rightarrow>
              powerport_disconnect st1 pk (POST (Some ())) =
                Inr (write_powerport st (pp\<lparr>pp_connection_status := None\<rparr>), Redirect_success) \<and>
              (powerport_disconnect st1 pk (POST (Some ())) = Inr (st, Redirect_success) \<longleftrightarrow>
                 pp_connection_status pp = None)) \<and>
         only_powerport_changed st
           (write_powerport st (pp\<lparr>pp_connection_status := None\<rparr>))
           pk (pp\<lparr>pp_connection_status := None\<rparr>)))"
proof (intro conjI impI)
  assume f: "find (\<lambda>q. cp_pk q = pk) (console_ports st) = Some cp"
  show "consoleport_disconnect st pk req = Inr (st, Redirect_warning) \<longleftrightarrow> cs_port cp = None"
    using f by (rule consoleport_disconnect_warns)
next
  assume f: "find (\<lambda>q. cp_pk q = pk) (console_ports st) = Some cp" and c: "cs_port cp \<noteq> None"
  show "consoleport_disconnect st pk (POST (Some ())) =
      Inr (write_consoleport st (cp\<lparr>cs_port := None, cp_connection_status := None\<rparr>),
           Redirect_success)"
    using f c by (rule consoleport_disconnect_clears)
next
  assume f: "find (\<lambda>q. cp_pk q = pk) (console_ports st) = Some cp"
  then have "cp_pk (cp\<lparr>cs_port := None, cp_connection_status := None\<rparr>) = pk"
    using find_key [of cp_pk pk "console_ports st" cp] by simp
  with f show "only_consoleport_changed st
      (write_consoleport st (cp\<lparr>cs_port := None, cp_connection_status := None\<rparr>))
      pk (cp\<lparr>cs_port := None, cp_connection_status := None\<rparr>)"
    by (rule write_consoleport_only)
next
  assume f: "find (\<lambda>q. cp_pk q = pk) (console_ports st) = Some cp"
    and n: "distinct (map cp_pk (console_ports st)) \<and> cs_port cp = None \<and>
      \<not> cs_port_taken st (csp_pk csp) pk"
  from n have d: "distinct (map cp_pk (console_ports st))" and u: "cs_port cp = None"
    and free: "\<not> cs_port_taken st (csp_pk csp) pk" by simp_all
  from f have k: "cp_pk (cp\<lparr>cp_connection_status := None\<rparr>) = pk"
    using find_key [of cp_pk pk "console_ports st" cp] by simp
  have con: "consoleport_connect st pk (POST (Some (csp, s))) =
      Inr (write_consoleport st (cp\<lparr>cs_port := Some (csp_pk csp), cp_connection_status := s\<rparr>),
           Redirect_success)"
    using f free by (rule consoleport_connect_sets)
  have dis: "consoleport_disconnect
      (write_consoleport st (cp\<lparr>cs_port := Some (csp_pk csp), cp_connection_status := s\<rparr>))
      pk (POST (Some ())) =
      Inr (write_consoleport st (cp\<lparr>cp_connection_status := None\<rparr>), Redirect_success)"
    using f u by (rule consoleport_round_trip)
  have e: "(cp\<lparr>cp_connection_status := None\<rparr> = cp) = (cp_connection_status cp = None)"
    by (cases cp) auto
  have same: "(write_consoleport st (cp\<lparr>cp_connection_status := None\<rparr>) = st) =
      (cp_connection_status cp = None)"
    using write_consoleport_same [OF f d k] e by simp
  show "case consoleport_connect st pk (POST (Some (csp, s))) of
      Inl e \<Rightarrow> False
    | Inr (st1, r) \<Rightarrow>
        consoleport_disconnect st1 pk (POST (Some ())) =
          Inr (write_consoleport st (cp\<lparr>cp_connection_status := None\<rparr>), Redirect_success) \<and>
        (consoleport_disconnect st1 pk (POST (Some ())) = Inr (st, Redirect_success) \<longleftrightarrow>
           cp_connection_status cp = None)"
    by (simp add: con dis same)
next
  assume f: "find (\<lambda>q. cp_pk q = pk) (console_ports st) = Some cp"
  then have "cp_pk (cp\<lparr>cp_connection_status := None\<rparr>) = pk"
    using find_key [of cp_pk pk "console_ports st" cp] by simp
  with f show "only_consoleport_changed st
      (write_consoleport st (cp\<lparr>cp_connection_status := None\<rparr>))
      pk (cp\<lparr>cp_connection_status := None\<rparr>)"
    by (rule write_consoleport_only)
next
  assume f: "find (\<lambda>q. pp_pk q = pk) (power_ports st) = Some pp"
  show "powerport_disconnect st pk req = Inr (st, Redirect_warning) \<longleftrightarrow> power_outlet pp = None"
    using f by (rule powerport_disconnect_warns)
next
  assume f: "find (\<lambda>q. pp_pk q = pk) (power_ports st) = Some pp" and c: "power_outlet pp \<noteq> None"
  show "powerport_disconnect st pk (POST (Some ())) =
      Inr (write_powerport st (pp\<lparr>power_outlet := None, pp_connection_status := None\<rparr>),
           Redirect_success)"
    using f c by (rule powerport_disconnect_clears)
next
  assume f: "find (\<lambda>q. pp_pk q = pk) (power_ports st) = Some pp"
  then have "pp_pk (pp\<lparr>power_outlet := None, pp_connection_status := None\<rparr>) = pk"
    using find_key [of pp_pk pk "power_ports st" pp] by simp
  with f show "only_powerport_changed st
      (write_powerport st (pp\<lparr>power_outlet := None, pp_connection_status := None\<rparr>))
      pk (pp\<lparr>power_outlet := None, pp_connection_status := None\<rparr>)"
    by (rule write_powerport_only)
next
  assume f: "find (\<lambda>q. pp_pk q = pk) (power_ports st) = Some pp"
    and n: "distinct (map pp_pk (power_ports st)) \<and> power_outlet pp = None \<and>
      \<not> power_outlet_taken st (po_pk po) pk"
  from n have d: "distinct (map pp_pk (power_ports st))" and u: "power_outlet pp = None"
    and free: "\<not> power_outlet_taken st (po_pk po) pk" by simp_all
  from f have k: "pp_pk (pp\<lparr>pp_connection_status := None\<rparr>) = pk"
    using find_key [of pp_pk pk "power_ports st" pp] by simp
  have con: "powerport_connect st pk (POST (Some (po, s))) =
      Inr (write_powerport st (pp\<lparr>power_outlet := Some (po_pk po), pp_connection_status := s\<rparr>),
           Redirect_success)"
    using f free by (rule powerport_connect_sets)
  have dis: "powerport_disconnect
      (write_powerport st (pp\<lparr>power_outlet := Some (po_pk po), pp_connection_status := s\<rparr>))
      pk (POST (Some ())) =
      Inr (write_powerport st (pp\<lparr>pp_connection_status := None\<rparr>), Redirect_success)"
    using f u by (rule powerport_round_trip)
  have e: "(pp\<lparr>pp_connection_status := None\<rparr> = pp) = (pp_connection_status pp = None)"
    by (cases pp) auto
  have same: "(write_powerport st (pp\<lparr>pp_connection_status := None\<rparr>) = st) =
      (pp_connection_status pp = None)"
    using write_powerport_same [OF f d k] e by simp
  show "case powerport_connect st pk (POST (Some (po, s))) of
      Inl e \<Rightarrow> False
    | Inr (st1, r) \<Rightarrow>
        powerport_disconnect st1 pk (POST (Some ())) =
          Inr (write_powerport st (pp\<lparr>pp_connection_status := None\<rparr>), Redirect_success) \<and>
        (powerport_disconnect st1 pk (POST (Some ())) = Inr (st, Redirect_success) \<longleftrightarrow>
           pp_connection_status pp = None)"
    by (simp add: con dis same)
next
  assume f: "find (\<lambda>q. pp_pk q = pk) (power_ports st) = Some pp"
  then have "pp_pk (pp\<lparr>pp_connection_status := None\<rparr>) = pk"
    using find_key [of pp_pk pk "power_ports st" pp] by simp
  with f show "only_powerport_changed st
      (write_powerport st (pp\<lparr>pp_connection_status := None\<rparr>))
      pk (pp\<lparr>pp_connection_status := None\<rparr>)"
    by (rule write_powerport_only)
qed

theorem C4_disconnect_witness:
  "find (\<lambda>q. cp_pk q = 1) (console_ports example_store) = Some con0 \<and>
   cs_port con0 \<noteq> None \<and>
   consoleport_disconnect example_store 1 (POST (Some ())) =
     Inr (write_consoleport example_store (con0\<lparr>cs_port := None, cp_connection_status := None\<rparr>),
          Redirect_success) \<and>
   only_consoleport_changed example_store
     (write_consoleport example_store (con0\<lparr>cs_port := None, cp_connection_status := None\<rparr>))
     1 (con0\<lparr>cs_port := None, cp_connection_status := None\<rparr>) \<and>
   find (\<lambda>q. cp_pk q = 2) (console_ports example_store) = Some con1 \<and>
   cs_port con1 = None \<and>
   consoleport_disconnect example_store 2 (POST (Some ())) = Inr (example_store, Redirect_warning) \<and>
   distinct (map cp_pk (console_ports example_store)) \<and>
   \<not> cs_port_taken example_store (csp_pk tty2) 2 \<and>
   (case consoleport_connect example_store 2 (POST (Some (tty2, Some Planned))) of
      Inl e \<Rightarrow> False
    | Inr (st1, r) \<Rightarrow>
        consoleport_disconnect st1 2 (POST (Some ())) =
          Inr (write_consoleport example_store (con1\<lparr>cp_connection_status := None\<rparr>),
               Redirect_success) \<and>
        (consoleport_disconnect st1 2 (POST (Some ())) = Inr (example_store, Redirect_success) \<longleftrightarrow>
           cp_connection_status con1 = None)) \<and>
   only_consoleport_changed example_store
     (write_consoleport example_store (con1\<lparr>cp_connection_status := None\<rparr>))
     2 (con1\<lparr>cp_connection_status := None\<rparr>) \<and>
   find (\<lambda>q. pp_pk q = 1) (power_ports example_store) = Some psu0 \<and>
   power_outlet psu0 \<noteq> None \<and>
   powerport_disconnect example_store 1 (POST (Some ())) =
     Inr (write_powerport example_store (psu0\<lparr>power_outlet := None, pp_connection_status := None\<rparr>),
          Redirect_success) \<and>
   only_powerport_changed example_store
     (write_powerport example_store (psu0\<lparr>power_outlet := None, pp_connection_status := None\<rparr>))
     1 (psu0\<lparr>power_outlet := None, pp_connection_status := None\<rparr>) \<and>
   find (\<lambda>q. pp_pk q = 2) (power_ports example_store) = Some psu1 \<and>
   power_outlet psu1 = None \<and>
   powerport_disconnect example_store 2 (POST (Some ())) = Inr (example_store, Redirect_warning) \<and>
   distinct (map pp_pk (power_ports example_store)) \<and>
   \<not> power_outlet_taken example_store (po_pk out2) 2 \<and>
   (case powerport_connect example_store 2 (POST (Some (out2, Some Planned))) of
      Inl e \<Rightarrow> False
    | Inr (st1, r) \<Rightarrow>
        powerport_disconnect st1 2 (POST (Some ())) =
          Inr (write_powerport example_store (psu1\<lparr>pp_connection_status := None\<rparr>),
               Redirect_success) \<and>
        (powerport_disconnect st1 2 (POST (Some ())) = Inr (example_store, Redirect_success) \<longleftrightarrow>
           pp_connection_status psu1 = None)) \<and>
   only_powerport_changed example_store
     (write_powerport example_store (psu1\<lparr>pp_connection_status := None\<rparr>))
     2 (psu1\<lparr>pp_connection_status := None\<rparr>)"
proof -
  note cr = example_console_rows
  have cset: "cs_port con0 \<noteq> None" using cr(7) by simp
  note ck1 = C4_disconnect [where req = "POST (Some ())", THEN conjunct1, THEN mp, OF cr(1)]
  note ck2 = C4_disconnect [where req = "POST (Some ())" and csp = tty2
      and s = "Some Planned", THEN conjunct1, THEN mp, OF cr(2)]
  have c1: "consoleport_disconnect example_store 1 (POST (Some ())) =
      Inr (write_consoleport example_store (con0\<lparr>cs_port := None, cp_connection_status := None\<rparr>),
           Redirect_success) \<and>
    only_consoleport_changed example_store
      (write_consoleport example_store (con0\<lparr>cs_port := None, cp_connection_status := None\<rparr>))
      1 (con0\<lparr>cs_port := None, cp_connection_status := None\<rparr>)"
    using ck1 [THEN conjunct2, THEN conjunct1, THEN mp, OF cset] .
  have c2: "consoleport_disconnect example_store 2 (POST (Some ())) =
      Inr (example_store, Redirect_warning)"
    using ck2 [THEN conjunct1] cr(8) by simp
  note c3 = ck2 [THEN conjunct2, THEN conjunct2, THEN mp,
      OF conjI [OF cr(6) conjI [OF cr(8) cr(11)]]]
  note pr = example_power_rows
  have pset: "power_outlet psu0 \<noteq> None" using pr(7) by simp
  note pw1 = C4_disconnect [where req = "POST (Some ())", THEN conjunct2, THEN mp, OF pr(1)]
  note pw2 = C4_disconnect [where req = "POST (Some ())" and po = out2
      and s = "Some Planned", THEN conjunct2, THEN mp, OF pr(2)]
  have p1: "powerport_disconnect example_store 1 (POST (Some ())) =
      Inr (write_powerport example_store (psu0\<lparr>power_outlet := None, pp_connection_status := None\<rparr>),
           Redirect_success) \<and>
    only_powerport_changed example_store
      (write_powerport example_store (psu0\<lparr>power_outlet := None, pp_connection_status := None\<rparr>))
      1 (psu0\<lparr>power_outlet := None, pp_connection_status := None\<rparr>)"
    using pw1 [THEN conjunct2, THEN conjunct1, THEN mp, OF pset] .
  have p2: "powerport_disconnect example_store 2 (POST (Some ())) =
      Inr (example_store, Redirect_warning)"
    using pw2 [THEN conjunct1] pr(8) by simp
  note p3 = pw2 [THEN conjunct2, THEN conjunct2, THEN mp,
      OF conjI [OF pr(6) conjI [OF pr(8) pr(11)]]]
  show ?thesis
    using cr(1) cset c1 cr(2) cr(8) c2 cr(6) cr(11) c3
      pr(1) pset p1 pr(2) pr(8) p2 pr(6) pr(11) p3
    by simp
qed

text \<open>
  C6, as stated: connecting a port that holds a partner reference to a new partner
  replaces the reference, unconditionally. On the code the views make no check of their
  own and hand the port to \<^verbatim>\<open>save()\<close>; the partner reference being one-to-one, the store
  refuses a partner that another port references. In \<open>topology_store\<close> the first console
  port references the second console server port and the second console port the first;
  the request to connect the first console port to the first console server port ends in
  \<^verbatim>\<open>IntegrityError\<close>, and the reference is not replaced. Likewise for the power ports.
\<close>

theorem C6_counterexample:
  "find (\<lambda>q. cp_pk q = 1) (console_ports topology_store) =
     Some (hd (console_ports topology_store)) \<and>
   cs_port (hd (console_ports topology_store)) = Some 2 \<and>
   consoleserverport_connect topology_store 1
     (POST (Some (hd (console_ports topology_store), Some Connected))) = Inl IntegrityError \<and>
   find (\<lambda>q. pp_pk q = 1) (power_ports topology_store) =
     Some (hd (power_ports topology_store)) \<and>
   power_outlet (hd (power_ports topology_store)) = Some 2 \<and>
   poweroutlet_connect topology_store 1
     (POST (Some (hd (power_ports topology_store), Some Connected))) = Inl IntegrityError"
  by (simp add: topology_store_def consoleserverport_connect_def save_consoleport_def
      cs_port_taken_def poweroutlet_connect_def save_powerport_def power_outlet_taken_def)

text \<open>
  C6, amended. The connect views make no check of a connection that the port already
  has. For a console port \<open>cp\<close> that references \<open>old\<close> and a new partner that no other
  console port references: the connect view of the port (first conjunct) and the connect
  view of a console server port for which the form chose \<open>cq\<close> (second conjunct) both
  save the row with the new reference and the status of the form, and change nothing else
  in the store: no row of the console server port table, the previous partner's among
  them, is touched. When another console port references the new partner, the request
  from the partner's side ends in the store's \<^verbatim>\<open>IntegrityError\<close>, and nothing is written
  (third conjunct). The fourth to sixth conjunct say the same of power ports and power
  outlets.
\<close>

theorem C6_connect_overwrites:
  "(find (\<lambda>q. cp_pk q = pk) (console_ports st) = Some cp \<and> cs_port cp = Some old \<and>
    \<not> cs_port_taken st (csp_pk csp) pk \<longrightarrow>
      consoleport_connect st pk (POST (Some (csp, s))) =
        Inr (write_consoleport st (cp\<lparr>cs_port := Some (csp_pk csp), cp_connection_status := s\<rparr>),
             Redirect_success) \<and>
      only_consoleport_changed st
        (write_consoleport st (cp\<lparr>cs_port := Some (csp_pk csp), cp_connection_status := s\<rparr>))
        pk (cp\<lparr>cs_port := Some (csp_pk csp), cp_connection_status := s\<rparr>))
   \<and>
   (find (\<lambda>q. csp_pk q = c) (cs_ports st) = Some cspq \<and>
    find (\<lambda>q. cp_pk q = k) (console_ports st) = Some cq \<and> cs_port cq = Some older \<and>
    \<not> cs_port_taken st c k \<longrightarrow>
      consoleserverport_connect st c (POST (Some (cq, t))) =
        Inr (write_consoleport st (cq\<lparr>cs_port := Some c, cp_connection_status := t\<rparr>),
             Redirect_success) \<and>
      only_consoleport_changed st
        (write_consoleport st (cq\<lparr>cs_port := Some c, cp_connection_status := t\<rparr>))
        k (cq\<lparr>cs_port := Some c, cp_connection_status := t\<rparr>))
   \<and>
   (find (\<lambda>q. csp_pk q = c) (cs_ports st) = Some cspq \<and>
    find (\<lambda>q. cp_pk q = k) (console_ports st) = Some cq \<and> cs_port cq = Some older \<and>
    cs_port_taken st c k \<longrightarrow>
      consoleserverport_connect st c (POST (Some (cq, t))) = Inl IntegrityError)
   \<and>
   (find (\<lambda>q. pp_pk q = pk) (power_ports st) = Some pp \<and> power_outlet pp = Some old \<and>
    \<not> power_outlet_taken st (po_pk po) pk \<longrightarrow>
      powerport_connect st pk (POST (Some (po, s))) =
        Inr (write_powerport st (pp\<lparr>power_outlet := Some (po_pk po), pp_connection_status := s\<rparr>),
             Redirect_success) \<and>
      only_powerport_changed st
        (write_powerport st (pp\<lparr>power_outlet := Some (po_pk po), pp_connection_status := s\<rparr>))
        pk (pp\<lparr>power_outlet := Some (po_pk po), pp_connection_status := s\<rparr>))
   \<and>
   (find (\<lambda>q. po_pk q = c) (power_outlets st) = Some poq \<and>
    find (\<lambda>q. pp_pk q = k) (power_ports st) = Some pq \<and> power_outlet pq = Some older \<and>
    \<not> power_outlet_taken st c k \<longrightarrow>
      poweroutlet_connect st c (POST (Some (pq, t))) =
        Inr (write_powerport st (pq\<lparr>power_outlet := Some c, pp_connection_status := t\<rparr>),
             Redirect_success) \<and>
      only_powerport_changed st
        (write_powerport st (pq\<lparr>power_outlet := Some c, pp_connection_status := t\<rparr>))
        k (pq\<lparr>power_outlet := Some c, pp_connection_status := t\<rparr>))
   \<and>
   (find (\<lambda>q. po_pk q = c) (power_outlets st) = Some poq \<and>
    find (\<lambda>q. pp_pk q = k) (power_ports st) = Some pq \<and> power_outlet pq = Some older \<and>
    power_outlet_taken st c k \<longrightarrow>
      poweroutlet_connect st c (POST (Some (pq, t))) = Inl IntegrityError)"
proof (intro conjI impI)
  assume a: "find (\<lambda>q. cp_pk q = pk) (console_ports st) = Some cp \<and> cs_port cp = Some old \<and>
    \<not> cs_port_taken st (csp_pk csp) pk"
  then have f: "find (\<lambda>q. cp_pk q = pk) (console_ports st) = Some cp"
    and free: "\<not> cs_port_taken st (csp_pk csp) pk" by simp_all
  show "consoleport_connect st pk (POST (Some (csp, s))) =
      Inr (write_consoleport st (cp\<lparr>cs_port := Some (csp_pk csp), cp_connection_status := s\<rparr>),
           Redirect_success)"
    using f free by (rule consoleport_connect_sets)
next
  assume a: "find (\<lambda>q. cp_pk q = pk) (console_ports st) = Some cp \<and> cs_port cp = Some old \<and>
    \<not> cs_port_taken st (csp_pk csp) pk"
  then have f: "find (\<lambda>q. cp_pk q = pk) (console_ports st) = Some cp" by simp
  then have "cp_pk (cp\<lparr>cs_port := Some (csp_pk csp), cp_connection_status := s\<rparr>) = pk"
    using find_key [of cp_pk pk "console_ports st" cp] by simp
  with f show "only_consoleport_changed st
      (write_consoleport st (cp\<lparr>cs_port := Some (csp_pk csp), cp_connection_status := s\<rparr>))
      pk (cp\<lparr>cs_port := Some (csp_pk csp), cp_connection_status := s\<rparr>)"
    by (rule write_consoleport_only)
next
  assume a: "find (\<lambda>q. csp_pk q = c) (cs_ports st) = Some cspq \<and>
    find (\<lambda>q. cp_pk q = k) (console_ports st) = Some cq \<and> cs_port cq = Some older \<and>
    \<not> cs_port_taken st c k"
  then have fc: "find (\<lambda>q. csp_pk q = c) (cs_ports st) = Some cspq"
    and f: "find (\<lambda>q. cp_pk q = k) (console_ports st) = Some cq"
    and free: "\<not> cs_port_taken st c k" by simp_all
  from f have "cp_pk cq = k" using find_key [of cp_pk k "console_ports st" cq] by simp
  with free have "\<not> cs_port_taken st c (cp_pk cq)" by simp
  with fc show "consoleserverport_connect st c (POST (Some (cq, t))) =
      Inr (write_consoleport st (cq\<lparr>cs_port := Some c, cp_connection_status := t\<rparr>),
           Redirect_success)"
    by (rule consoleserverport_connect_sets)
next
  assume a: "find (\<lambda>q. csp_pk q = c) (cs_ports st) = Some cspq \<and>
    find (\<lambda>q. cp_pk q = k) (console_ports st) = Some cq \<and> cs_port cq = Some older \<and>
    \<not> cs_port_taken st c k"
  then have f: "find (\<lambda>q. cp_pk q = k) (console_ports st) = Some cq" by simp
  then have "cp_pk (cq\<lparr>cs_port := Some c, cp_connection_status := t\<rparr>) = k"
    using find_key [of cp_pk k "console_ports st" cq] by simp
  with f show "only_consoleport_changed st
      (write_consoleport st (cq\<lparr>cs_port := Some c, cp_connection_status := t\<rparr>))
      k (cq\<lparr>cs_port := Some c, cp_connection_status := t\<rparr>)"
    by (rule write_consoleport_only)
next
  assume a: "find (\<lambda>q. csp_pk q = c) (cs_ports st) = Some cspq \<and>
    find (\<lambda>q. cp_pk q = k) (console_ports st) = Some cq \<and> cs_port cq = Some older \<and>
    cs_port_taken st c k"
  then have fc: "find (\<lambda>q. csp_pk q = c) (cs_ports st) = Some cspq"
    and f: "find (\<lambda>q. cp_pk q = k) (console_ports st) = Some cq"
    and taken: "cs_port_taken st c k" by simp_all
  from f have "cp_pk cq = k" using find_key [of cp_pk k "console_ports st" cq] by simp
  with taken have "cs_port_taken st c (cp_pk cq)" by simp
  with fc show "consoleserverport_connect st c (POST (Some (cq, t))) = Inl IntegrityError"
    by (rule consoleserverport_connect_refused)
next
  assume a: "find (\<lambda>q. pp_pk q = pk) (power_ports st) = Some pp \<and> power_outlet pp = Some old \<and>
    \<not> power_outlet_taken st (po_pk po) pk"
  then have f: "find (\<lambda>q. pp_pk q = pk) (power_ports st) = Some pp"
    and free: "\<not> power_outlet_taken st (po_pk po) pk" by simp_all
  show "powerport_connect st pk (POST (Some (po, s))) =
      Inr (write_powerport st (pp\<lparr>power_outlet := Some (po_pk po), pp_connection_status := s\<rparr>),
           Redirect_success)"
    using f free by (rule powerport_connect_sets)
next
  assume a: "find (\<lambda>q. pp_pk q = pk) (power_ports st) = Some pp \<and> power_outlet pp = Some old \<and>
    \<not> power_outlet_taken st (po_pk po) pk"
  then have f: "find (\<lambda>q. pp_pk q = pk) (power_ports st) = Some pp" by simp
  then have "pp_pk (pp\<lparr>power_outlet := Some (po_pk po), pp_connection_status := s\<rparr>) = pk"
    using find_key [of pp_pk pk "power_ports st" pp] by simp
  with f show "only_powerport_changed st
      (write_powerport st (pp\<lparr>power_outlet := Some (po_pk po), pp_connection_status := s\<rparr>))
      pk (pp\<lparr>power_outlet := Some (po_pk po), pp_connection_status := s\<rparr>)"
    by (rule write_powerport_only)
next
  assume a: "find (\<lambda>q. po_pk q = c) (power_outlets st) = Some poq \<and>
    find (\<lambda>q. pp_pk q = k) (power_ports st) = Some pq \<and> power_outlet pq = Some older \<and>
    \<not> power_outlet_taken st c k"
  then have fc: "find (\<lambda>q. po_pk q = c) (power_outlets st) = Some poq"
    and f: "find (\<lambda>q. pp_pk q = k) (power_ports st) = Some pq"
    and free: "\<not> power_outlet_taken st c k" by simp_all
  from f have "pp_pk pq = k" using find_key [of pp_pk k "power_ports st" pq] by simp
  with free have "\<not> power_outlet_taken st c (pp_pk pq)" by simp
  with fc show "poweroutlet_connect st c (POST (Some (pq, t))) =
      Inr (write_powerport st (pq\<lparr>power_outlet := Some c, pp_connection_status := t\<rparr>),
           Redirect_success)"
    by (rule poweroutlet_connect_sets)
next
  assume a: "find (\<lambda>q. po_pk q = c) (power_outlets st) = Some poq \<and>
    find (\<lambda>q. pp_pk q = k) (power_ports st) = Some pq \<and> power_outlet pq = Some older \<and>
    \<not> power_outlet_taken st c k"
  then have f: "find (\<lambda>q. pp_pk q = k) (power_ports st) = Some pq" by simp
  then have "pp_pk (pq\<lparr>power_outlet := Some c, pp_connection_status := t\<rparr>) = k"
    using find_key [of pp_pk k "power_ports st" pq] by simp
  with f show "only_powerport_changed st
      (write_powerport st (pq\<lparr>power_outlet := Some c, pp_connection_status := t\<rparr>))
      k (pq\<lparr>power_outlet := Some c, pp_connection_status := t\<rparr>)"
    by (rule write_powerport_only)
next
  assume a: "find (\<lambda>q. po_pk q = c) (power_outlets st) = Some poq \<and>
    find (\<lambda>q. pp_pk q = k) (power_ports st) = Some pq \<and> power_outlet pq = Some older \<and>
    power_outlet_taken st c k"
  then have fc: "find (\<lambda>q. po_pk q = c) (power_outlets st) = Some poq"
    and f: "find (\<lambda>q. pp_pk q = k) (power_ports st) = Some pq"
    and taken: "power_outlet_taken st c k" by simp_all
  from f have "pp_pk pq = k" using find_key [of pp_pk k "power_ports st" pq] by simp
  with taken have "power_outlet_taken st c (pp_pk pq)" by simp
  with fc show "poweroutlet_connect st c (POST (Some (pq, t))) = Inl IntegrityError"
    by (rule poweroutlet_connect_refused)
qed

theorem C6_connect_overwrites_witness:
  "find (\<lambda>q. cp_pk q = 1) (console_ports example_store) = Some con0 \<and>
   cs_port con0 = Some 1 \<and>
   \<not> cs_port_taken example_store (csp_pk tty2) 1 \<and>
   consoleport_connect example_store 1 (POST (Some (tty2, Some Planned))) =
     Inr (write_consoleport example_store
            (con0\<lparr>cs_port := Some (csp_pk tty2), cp_connection_status := Some Planned\<rparr>),
          Redirect_success) \<and>
   only_consoleport_changed example_store
     (write_consoleport example_store
        (con0\<lparr>cs_port := Some (csp_pk tty2), cp_connection_status := Some Planned\<rparr>))
     1 (con0\<lparr>cs_port := Some (csp_pk tty2), cp_connection_status := Some Planned\<rparr>) \<and>
   find (\<lambda>q. csp_pk q = 2) (cs_ports example_store) = Some tty2 \<and>
   \<not> cs_port_taken example_store 2 1 \<and>
   consoleserverport_connect example_store 2 (POST (Some (con0, Some Planned))) =
     Inr (write_consoleport example_store
            (con0\<lparr>cs_port := Some 2, cp_connection_status := Some Planned\<rparr>),
          Redirect_success) \<and>
   only_consoleport_changed example_store
     (write_consoleport example_store
        (con0\<lparr>cs_port := Some 2, cp_connection_status := Some Planned\<rparr>))
     1 (con0\<lparr>cs_port := Some 2, cp_connection_status := Some Planned\<rparr>) \<and>
   find (\<lambda>q. csp_pk q = 1) (cs_ports topology_store) = Some (hd (cs_ports topology_store)) \<and>
   find (\<lambda>q. cp_pk q = 1) (console_ports topology_store) =
     Some (hd (console_ports topology_store)) \<and>
   cs_port (hd (console_ports topology_store)) = Some 2 \<and>
   cs_port_taken topology_store 1 1 \<and>
   consoleserverport_connect topology_store 1
     (POST (Some (hd (console_ports topology_store), Some Connected))) = Inl IntegrityError \<and>
   find (\<lambda>q. pp_pk q = 1) (power_ports example_store) = Some psu0 \<and>
   power_outlet psu0 = Some 1 \<and>
   \<not> power_outlet_taken example_store (po_pk out2) 1 \<and>
   powerport_connect example_store 1 (POST (Some (out2, Some Planned))) =
     Inr (write_powerport example_store
            (psu0\<lparr>power_outlet := Some (po_pk out2), pp_connection_status := Some Planned\<rparr>),
          Redirect_success) \<and>
   only_powerport_changed example_store
     (write_powerport example_store
        (psu0\<lparr>power_outlet := Some (po_pk out2), pp_connection_status := Some Planned\<rparr>))
     1 (psu0\<lparr>power_outlet := Some (po_pk out2), pp_connection_status := Some Planned\<rparr>) \<and>
   find (\<lambda>q. po_pk q = 2) (power_outlets example_store) = Some out2 \<and>
   \<not> power_outlet_taken example_store 2 1 \<and>
   poweroutlet_connect example_store 2 (POST (Some (psu0, Some Planned))) =
     Inr (write_powerport example_store
            (psu0\<lparr>power_outlet := Some 2, pp_connection_status := Some Planned\<rparr>),
          Redirect_success) \<and>
   only_powerport_changed example_store
     (write_powerport example_store
        (psu0\<lparr>power_outlet := Some 2, pp_connection_status := Some Planned\<rparr>))
     1 (psu0\<lparr>power_outlet := Some 2, pp_connection_status := Some Planned\<rparr>) \<and>
   find (\<lambda>q. po_pk q = 1) (power_outlets topology_store) = Some (hd (power_outlets topology_store)) \<and>
   find (\<lambda>q. pp_pk q = 1) (power_ports topology_store) =
     Some (hd (power_ports topology_store)) \<and>
   power_outlet (hd (power_ports topology_store)) = Some 2 \<and>
   power_outlet_taken topology_store 1 1 \<and>
   poweroutlet_connect topology_store 1
     (POST (Some (hd (power_ports topology_store), Some Connected))) = Inl IntegrityError"
proof -
  note cr = example_console_rows
  note tr = topology_console_rows
  note c1 = C6_connect_overwrites [where csp = tty2 and s = "Some Planned", THEN conjunct1,
      THEN mp, OF conjI [OF cr(1) conjI [OF cr(7) cr(12)]]]
  note c2 = C6_connect_overwrites [where t = "Some Planned", THEN conjunct2, THEN conjunct1,
      THEN mp, OF conjI [OF cr(4) conjI [OF cr(1) conjI [OF cr(7) cr(13)]]]]
  note c3 = C6_connect_overwrites [where t = "Some Connected", THEN conjunct2, THEN conjunct2, THEN conjunct1,
      THEN mp, OF conjI [OF tr(1) conjI [OF tr(2) conjI [OF tr(3) tr(4)]]]]
  note pr = example_power_rows
  note ur = topology_power_rows
  note p1 = C6_connect_overwrites [where po = out2 and s = "Some Planned", THEN conjunct2, THEN conjunct2, THEN conjunct2, THEN conjunct1,
      THEN mp, OF conjI [OF pr(1) conjI [OF pr(7) pr(12)]]]
  note p2 = C6_connect_overwrites [where t = "Some Planned", THEN conjunct2, THEN conjunct2, THEN conjunct2, THEN conjunct2, THEN conjunct1,
      THEN mp, OF conjI [OF pr(4) conjI [OF pr(1) conjI [OF pr(7) pr(13)]]]]
  note p3 = C6_connect_overwrites [where t = "Some Connected", THEN conjunct2, THEN conjunct2, THEN conjunct2, THEN conjunct2, THEN conjunct2,
      THEN mp, OF conjI [OF ur(1) conjI [OF ur(2) conjI [OF ur(3) ur(4)]]]]
  show ?thesis
    using cr(1) cr(7) cr(12) c1 cr(4) cr(13) c2 tr(1) tr(2) tr(3) tr(4) c3
      pr(1) pr(7) pr(12) p1 pr(4) pr(13) p2 ur(1) ur(2) ur(3) ur(4) p3
    by simp
qed

text \<open>
  C10. For a connected pair (the console server port \<open>c\<close> is referenced by the console
  port \<open>cp\<close> and by no other), the confirmed disconnect from the console server port's
  side and the confirmed disconnect from the console port's side give the same result:
  both save the console port with reference and status null, and nothing else in the
  store changes, no console server port in particular. The second conjunct says the same
  of power outlets and power ports.
\<close>

theorem C10_disconnect_either_side:
  "(find (\<lambda>q. csp_pk q = c) (cs_ports st) = Some csp \<and>
    find (\<lambda>q. cp_pk q = pk) (console_ports st) = Some cp \<and>
    filter (\<lambda>q. cs_port q = Some c) (console_ports st) = [cp] \<longrightarrow>
      consoleserverport_disconnect st c (POST (Some ())) =
        consoleport_disconnect st pk (POST (Some ())) \<and>
      consoleport_disconnect st pk (POST (Some ())) =
        Inr (write_consoleport st (cp\<lparr>cs_port := None, cp_connection_status := None\<rparr>),
             Redirect_success) \<and>
      only_consoleport_changed st
        (write_consoleport st (cp\<lparr>cs_port := None, cp_connection_status := None\<rparr>))
        pk (cp\<lparr>cs_port := None, cp_connection_status := None\<rparr>))
   \<and>
   (find (\<lambda>q. po_pk q = c) (power_outlets st) = Some po \<and>
    find (\<lambda>q. pp_pk q = pk) (power_ports st) = Some pp \<and>
    filter (\<lambda>q. power_outlet q = Some c) (power_ports st) = [pp] \<longrightarrow>
      poweroutlet_disconnect st c (POST (Some ())) =
        powerport_disconnect st pk (POST (Some ())) \<and>
      powerport_disconnect st pk (POST (Some ())) =
        Inr (write_powerport st (pp\<lparr>power_outlet := None, pp_connection_status := None\<rparr>),
             Redirect_success) \<and>
      only_powerport_changed st
        (write_powerport st (pp\<lparr>power_outlet := None, pp_connection_status := None\<rparr>))
        pk (pp\<lparr>power_outlet := None, pp_connection_status := None\<rparr>))"
proof (intro conjI impI)
  assume a: "find (\<lambda>q. csp_pk q = c) (cs_ports st) = Some csp \<and>
    find (\<lambda>q. cp_pk q = pk) (console_ports st) = Some cp \<and>
    filter (\<lambda>q. cs_port q = Some c) (console_ports st) = [cp]"
  then have fc: "find (\<lambda>q. csp_pk q = c) (cs_ports st) = Some csp"
    and f: "find (\<lambda>q. cp_pk q = pk) (console_ports st) = Some cp"
    and one: "filter (\<lambda>q. cs_port q = Some c) (console_ports st) = [cp]" by simp_all
  from one have "cs_port cp = Some c" by (rule filter_single_holds)
  then have set: "cs_port cp \<noteq> None" by simp
  show "consoleserverport_disconnect st c (POST (Some ())) =
      consoleport_disconnect st pk (POST (Some ()))"
    using consoleserverport_disconnect_same [OF fc one] consoleport_disconnect_clears [OF f set]
    by simp
next
  assume a: "find (\<lambda>q. csp_pk q = c) (cs_ports st) = Some csp \<and>
    find (\<lambda>q. cp_pk q = pk) (console_ports st) = Some cp \<and>
    filter (\<lambda>q. cs_port q = Some c) (console_ports st) = [cp]"
  then have f: "find (\<lambda>q. cp_pk q = pk) (console_ports st) = Some cp"
    and one: "filter (\<lambda>q. cs_port q = Some c) (console_ports st) = [cp]" by simp_all
  from one have "cs_port cp = Some c" by (rule filter_single_holds)
  then have set: "cs_port cp \<noteq> None" by simp
  show "consoleport_disconnect st pk (POST (Some ())) =
      Inr (write_consoleport st (cp\<lparr>cs_port := None, cp_connection_status := None\<rparr>),
           Redirect_success)"
    using f set by (rule consoleport_disconnect_clears)
next
  assume a: "find (\<lambda>q. csp_pk q = c) (cs_ports st) = Some csp \<and>
    find (\<lambda>q. cp_pk q = pk) (console_ports st) = Some cp \<and>
    filter (\<lambda>q. cs_port q = Some c) (console_ports st) = [cp]"
  then have f: "find (\<lambda>q. cp_pk q = pk) (console_ports st) = Some cp" by simp
  then have "cp_pk (cp\<lparr>cs_port := None, cp_connection_status := None\<rparr>) = pk"
    using find_key [of cp_pk pk "console_ports st" cp] by simp
  with f show "only_consoleport_changed st
      (write_consoleport st (cp\<lparr>cs_port := None, cp_connection_status := None\<rparr>))
      pk (cp\<lparr>cs_port := None, cp_connection_status := None\<rparr>)"
    by (rule write_consoleport_only)
next
  assume a: "find (\<lambda>q. po_pk q = c) (power_outlets st) = Some po \<and>
    find (\<lambda>q. pp_pk q = pk) (power_ports st) = Some pp \<and>
    filter (\<lambda>q. power_outlet q = Some c) (power_ports st) = [pp]"
  then have fc: "find (\<lambda>q. po_pk q = c) (power_outlets st) = Some po"
    and f: "find (\<lambda>q. pp_pk q = pk) (power_ports st) = Some pp"
    and one: "filter (\<lambda>q. power_outlet q = Some c) (power_ports st) = [pp]" by simp_all
  from one have "power_outlet pp = Some c" by (rule filter_single_holds)
  then have set: "power_outlet pp \<noteq> None" by simp
  show "poweroutlet_disconnect st c (POST (Some ())) =
      powerport_disconnect st pk (POST (Some ()))"
    using poweroutlet_disconnect_same [OF fc one] powerport_disconnect_clears [OF f set]
    by simp
next
  assume a: "find (\<lambda>q. po_pk q = c) (power_outlets st) = Some po \<and>
    find (\<lambda>q. pp_pk q = pk) (power_ports st) = Some pp \<and>
    filter (\<lambda>q. power_outlet q = Some c) (power_ports st) = [pp]"
  then have f: "find (\<lambda>q. pp_pk q = pk) (power_ports st) = Some pp"
    and one: "filter (\<lambda>q. power_outlet q = Some c) (power_ports st) = [pp]" by simp_all
  from one have "power_outlet pp = Some c" by (rule filter_single_holds)
  then have set: "power_outlet pp \<noteq> None" by simp
  show "powerport_disconnect st pk (POST (Some ())) =
      Inr (write_powerport st (pp\<lparr>power_outlet := None, pp_connection_status := None\<rparr>),
           Redirect_success)"
    using f set by (rule powerport_disconnect_clears)
next
  assume a: "find (\<lambda>q. po_pk q = c) (power_outlets st) = Some po \<and>
    find (\<lambda>q. pp_pk q = pk) (power_ports st) = Some pp \<and>
    filter (\<lambda>q. power_outlet q = Some c) (power_ports st) = [pp]"
  then have f: "find (\<lambda>q. pp_pk q = pk) (power_ports st) = Some pp" by simp
  then have "pp_pk (pp\<lparr>power_outlet := None, pp_connection_status := None\<rparr>) = pk"
    using find_key [of pp_pk pk "power_ports st" pp] by simp
  with f show "only_powerport_changed st
      (write_powerport st (pp\<lparr>power_outlet := None, pp_connection_status := None\<rparr>))
      pk (pp\<lparr>power_outlet := None, pp_connection_status := None\<rparr>)"
    by (rule write_powerport_only)
qed

theorem C10_disconnect_either_side_witness:
  "find (\<lambda>q. csp_pk q = 1) (cs_ports example_store) = Some tty1 \<and>
   find (\<lambda>q. cp_pk q = 1) (console_ports example_store) = Some con0 \<and>
   filter (\<lambda>q. cs_port q = Some 1) (console_ports example_store) = [con0] \<and>
   consoleserverport_disconnect example_store 1 (POST (Some ())) =
     consoleport_disconnect example_store 1 (POST (Some ())) \<and>
   consoleport_disconnect example_store 1 (POST (Some ())) =
     Inr (write_consoleport example_store (con0\<lparr>cs_port := None, cp_connection_status := None\<rparr>),
          Redirect_success) \<and>
   only_consoleport_changed example_store
     (write_consoleport example_store (con0\<lparr>cs_port := None, cp_connection_status := None\<rparr>))
     1 (con0\<lparr>cs_port := None, cp_connection_status := None\<rparr>) \<and>
   find (\<lambda>q. po_pk q = 1) (power_outlets example_store) = Some out1 \<and>
   find (\<lambda>q. pp_pk q = 1) (power_ports example_store) = Some psu0 \<and>
   filter (\<lambda>q. power_outlet q = Some 1) (power_ports example_store) = [psu0] \<and>
   poweroutlet_disconnect example_store 1 (POST (Some ())) =
     powerport_disconnect example_store 1 (POST (Some ())) \<and>
   powerport_disconnect example_store 1 (POST (Some ())) =
     Inr (write_powerport example_store (psu0\<lparr>power_outlet := None, pp_connection_status := None\<rparr>),
          Redirect_success) \<and>
   only_powerport_changed example_store
     (write_powerport example_store (psu0\<lparr>power_outlet := None, pp_connection_status := None\<rparr>))
     1 (psu0\<lparr>power_outlet := None, pp_connection_status := None\<rparr>)"
proof -
  note cr = example_console_rows
  note c1 = C10_disconnect_either_side [THEN conjunct1,
      THEN mp, OF conjI [OF cr(3) conjI [OF cr(1) cr(5)]]]
  note pr = example_power_rows
  note p1 = C10_disconnect_either_side [THEN conjunct2,
      THEN mp, OF conjI [OF pr(3) conjI [OF pr(1) pr(5)]]]
  show ?thesis
    using cr(3) cr(1) cr(5) c1 pr(3) pr(1) pr(5) p1
    by simp
qed

section \<open>Claims about bulk creation\<close>

text \<open>
  C2, as stated: a name that collides with another name of the same batch also makes
  the view reject the batch and report the name. On the code the view compares each
  name with the stored ports only: for the batch \<^verbatim>\<open>eth1\<close>, \<^verbatim>\<open>eth1\<close> on a device without
  such an interface, both names validate, the loop reports no error, and both instances
  go to \<^verbatim>\<open>bulk_create\<close>; the request ends in the store's \<^verbatim>\<open>IntegrityError\<close>, not in a
  report of the name.
\<close>

theorem C2_counterexample:
  "interface_add_loop example_store \<lparr>dev_pk = 1, dev_name = ''sw1''\<rparr> (0, False, [])
     [''eth1'', ''eth1''] ([], []) =
     ([\<lparr>if_pk = 0, if_device = 1, if_name = ''eth1'', form_factor = 0, mgmt_only = False,
        description = []\<rparr>,
       \<lparr>if_pk = 0, if_device = 1, if_name = ''eth1'', form_factor = 0, mgmt_only = False,
        description = []\<rparr>], []) \<and>
   interface_add example_store 1 (POST (Some ([''eth1'', ''eth1''], (0, False, [])))) =
     Inl IntegrityError"
  by (simp add: interface_add_def interface_form_is_valid_def bulk_create_interfaces_def
      example_store_def next_pk_def)

text \<open>
  C2, amended: for a batch of names for one device, if any name collides with a stored
  port of the same kind on that device, the view creates nothing and reports every such
  name, one error per occurrence in the batch; with an interface \<^verbatim>\<open>eth0\<close> on the device,
  the batch \<^verbatim>\<open>eth0\<close>, \<^verbatim>\<open>eth1\<close> creates no interface and reports one duplicate, \<^verbatim>\<open>eth0\<close>.
  If no name collides with a stored port, the view reports nothing and hands an instance
  for every name of the batch, repeated names included, to \<^verbatim>\<open>bulk_create\<close>. The first
  and third conjunct are about console ports, the second and fourth about interfaces.
\<close>

theorem C2_batch_rejected_on_stored_name:
  "(find (\<lambda>d. dev_pk d = pk) (devices st) = Some device \<and>
    filter (\<lambda>name. \<not> consoleport_form_is_valid st pk name) names \<noteq> [] \<longrightarrow>
      consoleport_add st default_status pk (POST (Some names)) =
        Inr (st, Render (map Duplicate_name
               (filter (\<lambda>name. \<not> consoleport_form_is_valid st pk name) names))))
   \<and>
   (find (\<lambda>d. dev_pk d = pk) (devices st) = Some device \<and>
    filter (\<lambda>name. \<not> interface_form_is_valid st pk name) names \<noteq> [] \<longrightarrow>
      interface_add st pk (POST (Some (names, attrs))) =
        Inr (st, Render (map Duplicate_name
               (filter (\<lambda>name. \<not> interface_form_is_valid st pk name) names))))
   \<and>
   (find (\<lambda>d. dev_pk d = pk) (devices st) = Some device \<and>
    filter (\<lambda>name. \<not> consoleport_form_is_valid st pk name) names = [] \<longrightarrow>
      consoleport_add st default_status pk (POST (Some names)) =
        (case bulk_create_consoleports st
                (map (\<lambda>name. \<lparr>cp_pk = 0, cp_device = pk, cp_name = name, cs_port = None,
                               cp_connection_status = default_status\<rparr>) names) of
           Inl e \<Rightarrow> Inl e
         | Inr st' \<Rightarrow> Inr (st', Redirect_success)))
   \<and>
   (find (\<lambda>d. dev_pk d = pk) (devices st) = Some device \<and>
    filter (\<lambda>name. \<not> interface_form_is_valid st pk name) names = [] \<longrightarrow>
      interface_add st pk (POST (Some (names, attrs))) =
        (case bulk_create_interfaces st
                (map (\<lambda>name. \<lparr>if_pk = 0, if_device = pk, if_name = name,
                               form_factor = fst attrs, mgmt_only = fst (snd attrs),
                               description = snd (snd attrs)\<rparr>) names) of
           Inl e \<Rightarrow> Inl e
         | Inr st' \<Rightarrow> Inr (st', Redirect_success)))"
  using consoleport_add_result [of pk st device default_status names]
    interface_add_result [of pk st device names attrs]
  by simp

theorem C2_batch_rejected_on_stored_name_witness:
  "find (\<lambda>d. dev_pk d = 1) (devices example_store) = Some \<lparr>dev_pk = 1, dev_name = ''sw1''\<rparr> \<and>
   filter (\<lambda>name. \<not> interface_form_is_valid example_store 1 name) [''eth0'', ''eth1''] = [''eth0''] \<and>
   interface_add example_store 1 (POST (Some ([''eth0'', ''eth1''], (0, False, [])))) =
     Inr (example_store, Render [Duplicate_name ''eth0'']) \<and>
   filter (\<lambda>name. \<not> consoleport_form_is_valid example_store 1 name) [''con0'', ''con1'', ''con2'']
     = [''con0'', ''con1''] \<and>
   consoleport_add example_store None 1 (POST (Some [''con0'', ''con1'', ''con2''])) =
     Inr (example_store, Render [Duplicate_name ''con0'', Duplicate_name ''con1'']) \<and>
   filter (\<lambda>name. \<not> interface_form_is_valid example_store 1 name) [''eth1''] = [] \<and>
   interface_add example_store 1 (POST (Some ([''eth1''], (0, False, [])))) =
     (case bulk_create_interfaces example_store
             [\<lparr>if_pk = 0, if_device = 1, if_name = ''eth1'', form_factor = 0, mgmt_only = False,
               description = []\<rparr>] of
        Inl e \<Rightarrow> Inl e
      | Inr st' \<Rightarrow> Inr (st', Redirect_success)) \<and>
   filter (\<lambda>name. \<not> consoleport_form_is_valid example_store 1 name) [''con2''] = [] \<and>
   consoleport_add example_store None 1 (POST (Some [''con2''])) =
     (case bulk_create_consoleports example_store
             [\<lparr>cp_pk = 0, cp_device = 1, cp_name = ''con2'', cs_port = None,
               cp_connection_status = None\<rparr>] of
        Inl e \<Rightarrow> Inl e
      | Inr st' \<Rightarrow> Inr (st', Redirect_success))"
proof -
  have d: "find (\<lambda>d. dev_pk d = 1) (devices example_store) = Some \<lparr>dev_pk = 1, dev_name = ''sw1''\<rparr>"
    by (simp add: example_store_def)
  have i1: "filter (\<lambda>name. \<not> interface_form_is_valid example_store 1 name) [''eth0'', ''eth1'']
      = [''eth0'']"
    by (simp add: interface_form_is_valid_def example_store_def)
  have c1: "filter (\<lambda>name. \<not> consoleport_form_is_valid example_store 1 name)
      [''con0'', ''con1'', ''con2''] = [''con0'', ''con1'']"
    by (simp add: consoleport_form_is_valid_def example_store_def con0_def con1_def)
  have i2: "filter (\<lambda>name. \<not> interface_form_is_valid example_store 1 name) [''eth1''] = []"
    by (simp add: interface_form_is_valid_def example_store_def)
  have c2: "filter (\<lambda>name. \<not> consoleport_form_is_valid example_store 1 name) [''con2''] = []"
    by (simp add: consoleport_form_is_valid_def example_store_def con0_def con1_def)
  note t = C2_batch_rejected_on_stored_name [where st = example_store and pk = 1
      and device = "\<lparr>dev_pk = 1, dev_name = ''sw1''\<rparr>" and attrs = "(0, False, [])"
      and default_status = None]
  have r1: "interface_add example_store 1 (POST (Some ([''eth0'', ''eth1''], (0, False, [])))) =
      Inr (example_store, Render [Duplicate_name ''eth0''])"
    using t [where names = "[''eth0'', ''eth1'']", THEN conjunct2, THEN conjunct1] d i1 by simp
  have r2: "consoleport_add example_store None 1 (POST (Some [''con0'', ''con1'', ''con2''])) =
      Inr (example_store, Render [Duplicate_name ''con0'', Duplicate_name ''con1''])"
    using t [where names = "[''con0'', ''con1'', ''con2'']", THEN conjunct1] d c1 by simp
  have r3: "interface_add example_store 1 (POST (Some ([''eth1''], (0, False, [])))) =
      (case bulk_create_interfaces example_store
              [\<lparr>if_pk = 0, if_device = 1, if_name = ''eth1'', form_factor = 0, mgmt_only = False,
                description = []\<rparr>] of
         Inl e \<Rightarrow> Inl e
       | Inr st' \<Rightarrow> Inr (st', Redirect_success))"
    using t [where names = "[''eth1'']", THEN conjunct2, THEN conjunct2, THEN conjunct2] d i2
    by simp
  have r4: "consoleport_add example_store None 1 (POST (Some [''con2''])) =
      (case bulk_create_consoleports example_store
              [\<lparr>cp_pk = 0, cp_device = 1, cp_name = ''con2'', cs_port = None,
                cp_connection_status = None\<rparr>] of
         Inl e \<Rightarrow> Inl e
       | Inr st' \<Rightarrow> Inr (st', Redirect_success))"
    using t [where names = "[''con2'']", THEN conjunct2, THEN conjunct2, THEN conjunct1] d c2
    by simp
  show ?thesis using d i1 r1 c1 r2 i2 r3 c2 r4 by simp
qed

text \<open>
  C3. \<^verbatim>\<open>update_objects\<close> validates every pair of a selected device and an expanded name
  before it creates anything. If any pair collides with a stored interface, the store is
  left as it is: no interface is created on any device, also not on a device all of whose
  pairs are valid; and the form's errors are those it had, followed by one error for each
  failing pair, in the order of the loops.
\<close>

theorem C3_update_objects_all_or_nothing:
  "failing_pairs st pk_list names \<noteq> [] \<longrightarrow>
     update_objects st form_errors pk_list (names, attrs) =
       Inr (st, form_errors @
              map (\<lambda>(d, name). Duplicate_interface name d) (failing_pairs st pk_list names))"
  by (simp add: update_objects_result split: prod.splits)

theorem C3_update_objects_all_or_nothing_witness:
  "failing_pairs example_store [1, 3] [''eth0'', ''eth1''] = [(1, ''eth0'')] \<and>
   update_objects example_store [] [1, 3] ([''eth0'', ''eth1''], (0, False, [])) =
     Inr (example_store, [Duplicate_interface ''eth0'' 1])"
proof -
  have f: "failing_pairs example_store [1, 3] [''eth0'', ''eth1''] = [(1, ''eth0'')]"
    by (simp add: failing_pairs_def interface_form_is_valid_def example_store_def)
  show ?thesis
    using f C3_update_objects_all_or_nothing [of example_store "[1, 3]" "[''eth0'', ''eth1'']"
        "[]" "(0, False, [])"]
    by simp
qed

section \<open>Connection listings\<close>











subsection \<open>Facts about sorted listings\<close>




subsection \<open>Claim about the listings\<close>



end
